theory Spec2Isabelle
  imports Complex_Main
begin

section \<open>Dates and numbers of \<^verbatim>\<open>source/controllers/bookings.ts\<close>\<close>

text \<open>
  A JavaScript \<^verbatim>\<open>Date\<close> holds a time value: a whole number of milliseconds since
  the epoch, at most \<open>8.64 * 10^15\<close> in absolute value, or \<^verbatim>\<open>NaN\<close> (an Invalid Date).
  A \<open>date\<close> is the time value of a valid \<^verbatim>\<open>Date\<close>; a computed date, which may be
  invalid, is a \<open>date option\<close> with \<open>None\<close> for the Invalid Date.
\<close>

type_synonym date = int

definition msPerHour :: int where
  "msPerHour = 3600000"

definition msPerDay :: int where
  "msPerDay = 86400000"

definition maxTime :: int where
  "maxTime = 8640000000000000"

text \<open>
  A TypeScript \<^verbatim>\<open>number\<close> is taken as the rational it denotes, and its sums are
  exact; on whole numbers below \<open>2^53\<close> that is the arithmetic of the source. The one
  place where the controller parses a number, \<^verbatim>\<open>Number(req.body.extraNights)\<close>, can
  also give \<^verbatim>\<open>NaN\<close>, so the parsed value has its own type. The infinities, which no
  JSON number denotes, are left out.
\<close>

datatype jsnumber = NaN | Num rat

subsection \<open>The calendar and the time zone of the host\<close>

text \<open>
  The abstract operations of ECMAScript's \<^verbatim>\<open>Date\<close>. \<open>DateFromTime\<close> is the day of
  the month, here computed from the day number by the usual era arithmetic of the
  proleptic Gregorian calendar.
\<close>

definition Day :: "int \<Rightarrow> int" where
  "Day t = t div msPerDay"

definition TimeWithinDay :: "int \<Rightarrow> int" where
  "TimeWithinDay t = t mod msPerDay"

definition DateFromTime :: "int \<Rightarrow> int" where
  "DateFromTime t =
     (let z = Day t + 719468;
          doe = z mod 146097;
          yoe = (doe - doe div 1460 + doe div 36524 - doe div 146096) div 365;
          doy = doe - (365 * yoe + yoe div 4 - yoe div 100);
          mp = (5 * doy + 2) div 153
      in doy - (153 * mp + 2) div 5 + 1)"

definition ToIntegerOrInfinity :: "rat \<Rightarrow> int" where
  "ToIntegerOrInfinity x = (if 0 \<le> x then \<lfloor>x\<rfloor> else \<lceil>x\<rceil>)"

definition TimeClip :: "int \<Rightarrow> date option" where
  "TimeClip t = (if \<bar>t\<bar> \<le> maxTime then Some t else None)"

text \<open>
  The host the server runs on decides the local time: \<open>utcOffset h t\<close> is the offset of
  local time from UTC at the time value \<open>t\<close>, and \<open>localOffset h t\<close> the offset in force
  at the local time \<open>t\<close> (ECMAScript's \<^verbatim>\<open>LocalTZA\<close> with and without \<^verbatim>\<open>isUTC\<close>).
\<close>

record host =
  utcOffset :: "int \<Rightarrow> int"
  localOffset :: "int \<Rightarrow> int"

definition LocalTime :: "host \<Rightarrow> int \<Rightarrow> int" where
  "LocalTime h t = t + utcOffset h t"

definition UTC :: "host \<Rightarrow> int \<Rightarrow> int" where
  "UTC h t = t - localOffset h t"

definition getDate :: "host \<Rightarrow> date \<Rightarrow> int" where
  "getDate h t = DateFromTime (LocalTime h t)"

text \<open>
  \<^verbatim>\<open>d.setDate(dt)\<close> on a valid date: the day \<open>dt\<close>, truncated toward zero, of the
  month of \<open>d\<close> in local time, at the local time of day of \<open>d\<close>; the result is an
  Invalid Date when it leaves the range of time values.
\<close>

definition setDate :: "host \<Rightarrow> date \<Rightarrow> rat \<Rightarrow> date option" where
  "setDate h t dt =
     (let tl = LocalTime h t;
          day = Day tl - (DateFromTime tl - 1) + ToIntegerOrInfinity dt - 1;
          newDate = day * msPerDay + TimeWithinDay tl
      in TimeClip (UTC h newDate))"

text \<open>\<^verbatim>\<open>a < b\<close> on two dates: false when either is an Invalid Date.\<close>

definition before :: "date option \<Rightarrow> date option \<Rightarrow> bool" where
  "before a b = (case a of None \<Rightarrow> False | Some x \<Rightarrow> (case b of None \<Rightarrow> False | Some y \<Rightarrow> x < y))"

text \<open>
  \<^verbatim>\<open>addNights\<close>, lines 101 to 105: a copy of the date, moved by
  \<^verbatim>\<open>d.setDate(d.getDate() + nights)\<close>.
\<close>

definition addNights :: "host \<Rightarrow> date \<Rightarrow> rat \<Rightarrow> date option" where
  "addNights h d nights = setDate h d (of_int (getDate h d) + nights)"

section \<open>Bookings and the store\<close>

text \<open>The interface \<^verbatim>\<open>Booking\<close>: the body of a creation request.\<close>

record Booking =
  guestName :: string
  unitID :: string
  checkInDate :: date
  numberOfNights :: rat

text \<open>
  A stored booking: the fields of the request and the \<^verbatim>\<open>id\<close> of the row, named
  \<open>bookingId\<close> here.
\<close>

record booking_row = Booking +
  bookingId :: int

subsection \<open>The persistence collaborator\<close>

datatype prisma_call = FindMany | FindUnique | Create | Update int rat

datatype prisma_error = RecordNotFound | InvalidValue

text \<open>
  Modelled from the spec: the store behind \<^verbatim>\<open>prisma.booking\<close>, whose schema is not
  part of the source. It holds the rows, the next identifier to assign, and the calls
  made so far (every call to the client is recorded, an update with the id and the
  night count it was given, so that a path of the controller that makes none is
  visible).
\<close>

record db =
  rows :: "booking_row list"
  nextId :: int
  calls :: "prisma_call list"

text \<open>
  Modelled from the spec: the data model's \<open>numberOfNights\<close> is an integer, and
  the store holds nothing else. That it is positive is for the controller to enforce,
  not for the store.
\<close>

definition isWhole :: "rat \<Rightarrow> bool" where
  "isWhole n = (of_int \<lfloor>n\<rfloor> = n)"

text \<open>
  Modelled from the spec: \<^verbatim>\<open>prisma.booking.findMany\<close>; the Prisma client and its
  schema are not part of the source. It returns the rows that satisfy the
  \<^verbatim>\<open>where\<close> clause, in the order of the store. A clause \<^verbatim>\<open>checkInDate: { lt: d }\<close>
  is \<open>before (Some (checkInDate r)) d\<close>: the bookings with a check-in date before \<open>d\<close>,
  none when \<open>d\<close> is no date.
\<close>

definition findMany :: "(booking_row \<Rightarrow> bool) \<Rightarrow> db \<Rightarrow> booking_row list \<times> db" where
  "findMany wh s = (filter wh (rows s), s\<lparr>calls := calls s @ [FindMany]\<rparr>)"

text \<open>
  Modelled from the spec: \<^verbatim>\<open>prisma.booking.findUnique\<close>, the collaborator's
  \<open>findBookingById\<close>. It returns the row with the given id, or nothing.
\<close>

definition findUnique :: "int \<Rightarrow> db \<Rightarrow> booking_row option \<times> db" where
  "findUnique i s =
     (find (\<lambda>r. bookingId r = i) (rows s), s\<lparr>calls := calls s @ [FindUnique]\<rparr>)"

text \<open>
  Modelled from the spec: \<^verbatim>\<open>prisma.booking.create\<close>, the collaborator's
  \<open>createBooking\<close>. It stores the data under an identifier it assigns, and fails,
  storing nothing, when the night count is not an integer.
\<close>

definition create :: "Booking \<Rightarrow> db \<Rightarrow> (prisma_error + booking_row) \<times> db" where
  "create d s =
     (if \<not> isWhole (numberOfNights d) then (Inl InvalidValue, s\<lparr>calls := calls s @ [Create]\<rparr>)
      else
       (let r = \<lparr>guestName = guestName d, unitID = unitID d, checkInDate = checkInDate d,
                  numberOfNights = numberOfNights d, bookingId = nextId s\<rparr>
        in (Inr r, s\<lparr>rows := rows s @ [r], nextId := nextId s + 1,
                     calls := calls s @ [Create]\<rparr>)))"

text \<open>
  Modelled from the spec: \<^verbatim>\<open>prisma.booking.update\<close>, the collaborator's
  \<open>updateBookingNights\<close>. It sets the night count of the row with the given id and
  returns the updated row; it fails, storing nothing, when the night count is not an
  integer or there is no such row.
\<close>

definition setNights :: "int \<Rightarrow> rat \<Rightarrow> booking_row \<Rightarrow> booking_row" where
  "setNights i n r = (if bookingId r = i then r\<lparr>numberOfNights := n\<rparr> else r)"

definition update :: "int \<Rightarrow> rat \<Rightarrow> db \<Rightarrow> (prisma_error + booking_row) \<times> db" where
  "update i n s =
     (if \<not> isWhole n then (Inl InvalidValue, s\<lparr>calls := calls s @ [Update i n]\<rparr>)
      else
       (case find (\<lambda>r. bookingId r = i) (rows s) of
          None \<Rightarrow> (Inl RecordNotFound, s\<lparr>calls := calls s @ [Update i n]\<rparr>)
        | Some r \<Rightarrow>
            (Inr (r\<lparr>numberOfNights := n\<rparr>),
             s\<lparr>rows := map (setNights i n) (rows s), calls := calls s @ [Update i n]\<rparr>)))"

subsection \<open>Responses\<close>

text \<open>What \<^verbatim>\<open>res.status(code).json(payload)\<close> sends.\<close>

datatype payload = Text string | Message string | Row booking_row

datatype response = Response nat payload

definition GUEST_UNIT_DUPLICATE :: string where
  "GUEST_UNIT_DUPLICATE = ''The given guest name cannot book the same unit multiple times''"

definition GUEST_ALREADY_BOOKED :: string where
  "GUEST_ALREADY_BOOKED = ''The same guest cannot be in multiple units at the same time''"

definition UNIT_OCCUPIED :: string where
  "UNIT_OCCUPIED = ''For the given check-in date, the unit is already occupied''"

definition INVALID_EXTRA_NIGHTS :: response where
  "INVALID_EXTRA_NIGHTS = Response 400 (Message ''Extra nights should be a valid number'')"

definition BOOKING_NOT_FOUND :: response where
  "BOOKING_NOT_FOUND = Response 404 (Message ''Booking not found'')"

definition EXTENSION_CONFLICT :: response where
  "EXTENSION_CONFLICT =
     Response 409 (Message ''Extension not possible; unit is taken in that period'')"

section \<open>The feasibility check: \<^verbatim>\<open>isBookingPossible\<close> and \<^verbatim>\<open>createBooking\<close>\<close>

record BookingOutcome =
  result :: bool
  reason :: string

text \<open>
  The loop over \<^verbatim>\<open>unitCandidates\<close>: it returns at the first row \<open>b\<close> with
  \<^verbatim>\<open>newCheckIn < bCheckOut && bCheckIn < newCheckOut\<close>.
\<close>

fun overlapLoop :: "host \<Rightarrow> date \<Rightarrow> date option \<Rightarrow> booking_row list \<Rightarrow> bool" where
  "overlapLoop h newCheckIn newCheckOut [] = False"
| "overlapLoop h newCheckIn newCheckOut (b # bs) =
     (let bCheckIn = checkInDate b;
          bCheckOut = addNights h bCheckIn (numberOfNights b);
          overlaps = (before (Some newCheckIn) bCheckOut \<and> before (Some bCheckIn) newCheckOut)
      in if overlaps then True else overlapLoop h newCheckIn newCheckOut bs)"

definition isBookingPossible :: "host \<Rightarrow> Booking \<Rightarrow> db \<Rightarrow> BookingOutcome \<times> db" where
  "isBookingPossible h booking s =
     (let (sameGuestSameUnit, s1) =
            findMany (\<lambda>r. guestName r = guestName booking \<and> unitID r = unitID booking) s
      in if length sameGuestSameUnit > 0
         then (\<lparr>result = False, reason = GUEST_UNIT_DUPLICATE\<rparr>, s1)
         else
     (let (sameGuestAlreadyBooked, s2) =
            findMany (\<lambda>r. guestName r = guestName booking) s1
      in if length sameGuestAlreadyBooked > 0
         then (\<lparr>result = False, reason = GUEST_ALREADY_BOOKED\<rparr>, s2)
         else
     (let (isUnitAvailableOnCheckInDate, s3) =
            findMany (\<lambda>r. checkInDate r = checkInDate booking \<and> unitID r = unitID booking) s2
      in if length isUnitAvailableOnCheckInDate > 0
         then (\<lparr>result = False, reason = UNIT_OCCUPIED\<rparr>, s3)
         else
     (let newCheckIn = checkInDate booking;
          newCheckOut = addNights h newCheckIn (numberOfNights booking);
          (unitCandidates, s4) =
            findMany (\<lambda>r. unitID r = unitID booking \<and>
                           before (Some (checkInDate r)) newCheckOut) s3
      in if overlapLoop h newCheckIn newCheckOut unitCandidates
         then (\<lparr>result = False, reason = UNIT_OCCUPIED\<rparr>, s4)
         else (\<lparr>result = True, reason = ''OK''\<rparr>, s4)))))"

text \<open>
  A failure of the client, which the handler does not catch, is the left summand: no
  response is sent.
\<close>

definition createBooking :: "host \<Rightarrow> Booking \<Rightarrow> db \<Rightarrow> (prisma_error + response) \<times> db" where
  "createBooking h booking s =
     (let (outcome, s1) = isBookingPossible h booking s
      in if \<not> result outcome then (Inr (Response 400 (Text (reason outcome))), s1)
         else (case create booking s1 of
                 (Inl e, s2) \<Rightarrow> (Inl e, s2)
               | (Inr bookingResult, s2) \<Rightarrow> (Inr (Response 200 (Row bookingResult)), s2)))"

section \<open>The extension: \<^verbatim>\<open>extendBooking\<close>\<close>

text \<open>
  The loop over \<^verbatim>\<open>conflictingBookings\<close>: it returns at the first row with
  \<^verbatim>\<open>currentCheckout < otherCheckOut && otherCheckIn < proposedCheckout\<close>.
\<close>

fun conflictLoop :: "host \<Rightarrow> date option \<Rightarrow> date option \<Rightarrow> booking_row list \<Rightarrow> bool" where
  "conflictLoop h currentCheckout proposedCheckout [] = False"
| "conflictLoop h currentCheckout proposedCheckout (other # rest) =
     (let otherCheckIn = checkInDate other;
          otherCheckOut = addNights h otherCheckIn (numberOfNights other)
      in if before currentCheckout otherCheckOut \<and> before (Some otherCheckIn) proposedCheckout
         then True
         else conflictLoop h currentCheckout proposedCheckout rest)"

text \<open>
  \<open>bookingID\<close> is the handler's \<^verbatim>\<open>bookingId\<close>, the parsed path parameter
  (\<open>bookingId\<close> names the \<^verbatim>\<open>id\<close> field of a row), \<^verbatim>\<open>extraNights\<close> the value of
  \<^verbatim>\<open>Number(req.body.extraNights)\<close>. The guard \<^verbatim>\<open>!extraNights || extraNights <= 0\<close>
  holds of \<^verbatim>\<open>NaN\<close> (which is falsy) and of a number that is zero or at most zero. The
  two checkouts are computed with \<^verbatim>\<open>setDate(getDate() + n)\<close>, written out in the
  handler; on an Invalid Date \<^verbatim>\<open>getDate()\<close> is \<^verbatim>\<open>NaN\<close> and the date stays invalid.
\<close>

definition extendBooking ::
  "host \<Rightarrow> int \<Rightarrow> jsnumber \<Rightarrow> db \<Rightarrow> (prisma_error + response) \<times> db" where
  "extendBooking h bookingID extraNights s =
     (case extraNights of
        NaN \<Rightarrow> (Inr INVALID_EXTRA_NIGHTS, s)
      | Num extra \<Rightarrow>
          if extra = 0 \<or> extra \<le> 0 then (Inr INVALID_EXTRA_NIGHTS, s)
          else
     (let (found, s1) = findUnique bookingID s
      in case found of
           None \<Rightarrow> (Inr BOOKING_NOT_FOUND, s1)
         | Some booking \<Rightarrow>
     (let checkIn = checkInDate booking;
          currentCheckout = setDate h checkIn (of_int (getDate h checkIn) + numberOfNights booking);
          proposedCheckout =
            (case currentCheckout of
               None \<Rightarrow> None
             | Some c \<Rightarrow> setDate h c (of_int (getDate h c) + extra));
          (conflictingBookings, s2) =
            findMany (\<lambda>r. unitID r = unitID booking \<and> bookingId r \<noteq> bookingId booking \<and>
                           before (Some (checkInDate r)) proposedCheckout) s1
      in if conflictLoop h currentCheckout proposedCheckout conflictingBookings
         then (Inr EXTENSION_CONFLICT, s2)
         else (case update (bookingId booking) (numberOfNights booking + extra) s2 of
                 (Inl e, s3) \<Rightarrow> (Inl e, s3)
               | (Inr updatedBooking, s3) \<Rightarrow> (Inr (Response 200 (Row updatedBooking)), s3)))))"

section \<open>The interval model, in the words of the specification\<close>

text \<open>
  Section 4.1 of the specification: the checkout of a booking is its check-in date plus
  its number of nights in whole days, and two bookings overlap when each starts before
  the other ends. This is plain arithmetic on time values; the controller has no
  function of that name, and the dates it computes are those of \<^verbatim>\<open>setDate\<close>.
\<close>

definition checkOutDate :: "'a Booking_scheme \<Rightarrow> rat" where
  "checkOutDate b = of_int (checkInDate b) + numberOfNights b * of_int msPerDay"

definition overlaps :: "'a Booking_scheme \<Rightarrow> 'b Booking_scheme \<Rightarrow> bool" where
  "overlaps a b =
     (of_int (checkInDate a) < checkOutDate b \<and> of_int (checkInDate b) < checkOutDate a)"

text \<open>
  Section 4.3: the proposed checkout is the current checkout plus the extra nights, and
  a booking \<open>other\<close> conflicts with the extension of \<open>b\<close> when it is on the same unit,
  is not \<open>b\<close> itself, checks in before the proposed checkout, and satisfies
  \<open>currentCheckout < otherCheckout\<close> and \<open>otherCheckIn < proposedCheckout\<close>.
\<close>

definition proposedCheckout :: "booking_row \<Rightarrow> rat \<Rightarrow> rat" where
  "proposedCheckout b extra = checkOutDate b + extra * of_int msPerDay"

definition extensionConflict :: "booking_row \<Rightarrow> rat \<Rightarrow> booking_row list \<Rightarrow> bool" where
  "extensionConflict b extra rs =
     (\<exists>other \<in> set rs.
        unitID other = unitID b \<and> bookingId other \<noteq> bookingId b \<and>
        of_int (checkInDate other) < proposedCheckout b extra \<and>
        checkOutDate b < checkOutDate other \<and>
        of_int (checkInDate other) < proposedCheckout b extra)"

section \<open>The checks on the dates the controller computes\<close>

text \<open>The checkout \<^verbatim>\<open>addNights\<close> gives for a booking on the host \<open>h\<close>.\<close>

definition computedCheckOut :: "host \<Rightarrow> 'a Booking_scheme \<Rightarrow> date option" where
  "computedCheckOut h b = addNights h (checkInDate b) (numberOfNights b)"

text \<open>
  Section 4.2: the four checks of a candidate \<open>c\<close> against the bookings on record, the
  fourth with the checkouts the controller computes.
\<close>

definition sameGuestSameUnit :: "Booking \<Rightarrow> booking_row list \<Rightarrow> bool" where
  "sameGuestSameUnit c rs = (\<exists>r \<in> set rs. guestName r = guestName c \<and> unitID r = unitID c)"

definition guestAlreadyBooked :: "Booking \<Rightarrow> booking_row list \<Rightarrow> bool" where
  "guestAlreadyBooked c rs = (\<exists>r \<in> set rs. guestName r = guestName c)"

definition exactCheckInCollision :: "Booking \<Rightarrow> booking_row list \<Rightarrow> bool" where
  "exactCheckInCollision c rs =
     (\<exists>r \<in> set rs. unitID r = unitID c \<and> checkInDate r = checkInDate c)"

definition intervalOverlap :: "host \<Rightarrow> Booking \<Rightarrow> booking_row list \<Rightarrow> bool" where
  "intervalOverlap h c rs =
     (\<exists>r \<in> set rs. unitID r = unitID c \<and>
        before (Some (checkInDate r)) (computedCheckOut h c) \<and>
        before (Some (checkInDate c)) (computedCheckOut h r) \<and>
        before (Some (checkInDate r)) (computedCheckOut h c))"

text \<open>The outcome the specification prescribes: the first failing check gives the reason.\<close>

definition evaluateNewBooking_spec ::
  "host \<Rightarrow> Booking \<Rightarrow> booking_row list \<Rightarrow> BookingOutcome" where
  "evaluateNewBooking_spec h c rs =
     (if sameGuestSameUnit c rs then \<lparr>result = False, reason = GUEST_UNIT_DUPLICATE\<rparr>
      else if guestAlreadyBooked c rs then \<lparr>result = False, reason = GUEST_ALREADY_BOOKED\<rparr>
      else if exactCheckInCollision c rs then \<lparr>result = False, reason = UNIT_OCCUPIED\<rparr>
      else if intervalOverlap h c rs then \<lparr>result = False, reason = UNIT_OCCUPIED\<rparr>
      else \<lparr>result = True, reason = ''OK''\<rparr>)"

text \<open>The conflict scan of \<^verbatim>\<open>extendBooking\<close> on the dates the controller computes.\<close>

definition computedProposal :: "host \<Rightarrow> booking_row \<Rightarrow> rat \<Rightarrow> date option" where
  "computedProposal h b extra =
     (case computedCheckOut h b of None \<Rightarrow> None | Some c \<Rightarrow> addNights h c extra)"

definition computedConflict :: "host \<Rightarrow> booking_row \<Rightarrow> rat \<Rightarrow> booking_row list \<Rightarrow> bool" where
  "computedConflict h b extra rs =
     (\<exists>other \<in> set rs.
        unitID other = unitID b \<and> bookingId other \<noteq> bookingId b \<and>
        before (Some (checkInDate other)) (computedProposal h b extra) \<and>
        before (computedCheckOut h b) (computedCheckOut h other))"

section \<open>Conditions on the host, on a candidate and on the store\<close>

text \<open>
  A host whose local time keeps one offset from UTC, and a host whose offsets differ by
  less than half a day (as they do where clocks change by an hour twice a year).
\<close>

definition fixedOffset :: "host \<Rightarrow> bool" where
  "fixedOffset h = (\<exists>c. \<forall>t. utcOffset h t = c \<and> localOffset h t = c)"

definition steadyHost :: "host \<Rightarrow> bool" where
  "steadyHost h = (\<forall>t t'. 2 * \<bar>utcOffset h t - localOffset h t'\<bar> < msPerDay)"

text \<open>
  Every booking on the candidate's unit touches the candidate: it ends at the
  candidate's check-in, or starts at the candidate's checkout.
\<close>

definition touchesOnly :: "Booking \<Rightarrow> booking_row list \<Rightarrow> bool" where
  "touchesOnly c rs =
     (\<forall>r \<in> set rs. unitID r = unitID c \<longrightarrow>
        checkOutDate r = of_int (checkInDate c) \<or> of_int (checkInDate r) = checkOutDate c)"

text \<open>The data model's \<open>numberOfNights \<ge> 1\<close>, which the controller never checks.\<close>

definition nightsAtLeastOne :: "booking_row list \<Rightarrow> bool" where
  "nightsAtLeastOne rs = (\<forall>r \<in> set rs. 1 \<le> numberOfNights r)"

text \<open>
  The data model of section 3: identifiers are unique (and below the next one to be
  assigned), no two bookings on a unit overlap, and every night count is a positive
  whole number.
\<close>

definition uniqueIds :: "db \<Rightarrow> bool" where
  "uniqueIds s =
     (distinct (map bookingId (rows s)) \<and> (\<forall>r \<in> set (rows s). bookingId r < nextId s))"

definition noOverlap :: "booking_row list \<Rightarrow> bool" where
  "noOverlap rs =
     (\<forall>a \<in> set rs. \<forall>b \<in> set rs. a \<noteq> b \<and> unitID a = unitID b \<longrightarrow> \<not> overlaps a b)"

definition nightsPositiveInteger :: "booking_row list \<Rightarrow> bool" where
  "nightsPositiveInteger rs = (\<forall>r \<in> set rs. numberOfNights r \<in> \<int> \<and> 1 \<le> numberOfNights r)"

text \<open>Every night count is whole; every checkout is the time value of a valid date.\<close>

definition wholeNights :: "booking_row list \<Rightarrow> bool" where
  "wholeNights rs = (\<forall>r \<in> set rs. numberOfNights r \<in> \<int>)"

definition datesInRange :: "booking_row list \<Rightarrow> bool" where
  "datesInRange rs = (\<forall>r \<in> set rs. \<bar>checkOutDate r\<bar> \<le> of_int maxTime)"

text \<open>Every checkout the controller computes on the host is a valid date.\<close>

definition checkoutsValid :: "host \<Rightarrow> booking_row list \<Rightarrow> bool" where
  "checkoutsValid h rs = (\<forall>r \<in> set rs. computedCheckOut h r \<noteq> None)"

section \<open>The feasibility check without its third query\<close>

text \<open>
  The variant the specification mentions in section 4.2, step 4: \<^verbatim>\<open>isBookingPossible\<close>
  with check 3, the query for an exact check-in collision, folded away.
\<close>

definition isBookingPossible_without3 :: "host \<Rightarrow> Booking \<Rightarrow> db \<Rightarrow> BookingOutcome \<times> db" where
  "isBookingPossible_without3 h booking s =
     (let (sameGuestSameUnit, s1) =
            findMany (\<lambda>r. guestName r = guestName booking \<and> unitID r = unitID booking) s
      in if length sameGuestSameUnit > 0
         then (\<lparr>result = False, reason = GUEST_UNIT_DUPLICATE\<rparr>, s1)
         else
     (let (sameGuestAlreadyBooked, s2) =
            findMany (\<lambda>r. guestName r = guestName booking) s1
      in if length sameGuestAlreadyBooked > 0
         then (\<lparr>result = False, reason = GUEST_ALREADY_BOOKED\<rparr>, s2)
         else
     (let newCheckIn = checkInDate booking;
          newCheckOut = addNights h newCheckIn (numberOfNights booking);
          (unitCandidates, s4) =
            findMany (\<lambda>r. unitID r = unitID booking \<and>
                           before (Some (checkInDate r)) newCheckOut) s2
      in if overlapLoop h newCheckIn newCheckOut unitCandidates
         then (\<lparr>result = False, reason = UNIT_OCCUPIED\<rparr>, s4)
         else (\<lparr>result = True, reason = ''OK''\<rparr>, s4))))"

section \<open>Sample data, from \<^verbatim>\<open>test/booking.test.ts\<close>\<close>

text \<open>
  The tests run where local time is UTC unless the host says otherwise. The second host
  has the clocks of New York around the first of November 2026 (day 20758), when at
  06:00 UTC local time falls back from four to five hours behind UTC.
\<close>

definition utcHost :: host where
  "utcHost = \<lparr>utcOffset = (\<lambda>t. 0), localOffset = (\<lambda>t. 0)\<rparr>"

definition easternHost :: host where
  "easternHost =
     \<lparr>utcOffset = (\<lambda>t. if t < 20758 * msPerDay + 6 * msPerHour
                         then - (4 * msPerHour) else - (5 * msPerHour)),
      localOffset = (\<lambda>t. if t < 20758 * msPerDay + 2 * msPerHour
                           then - (4 * msPerHour) else - (5 * msPerHour))\<rparr>"

text \<open>Day 0, at midnight UTC, is the day the tests call today.\<close>

definition GUEST_A_UNIT_1 :: Booking where
  "GUEST_A_UNIT_1 =
     \<lparr>guestName = ''GuestA'', unitID = ''1'', checkInDate = 0, numberOfNights = 5\<rparr>"

definition GUEST_A_UNIT_2 :: Booking where
  "GUEST_A_UNIT_2 =
     \<lparr>guestName = ''GuestA'', unitID = ''2'', checkInDate = 0, numberOfNights = 5\<rparr>"

definition GUEST_B_UNIT_1 :: Booking where
  "GUEST_B_UNIT_1 =
     \<lparr>guestName = ''GuestB'', unitID = ''1'', checkInDate = 0, numberOfNights = 5\<rparr>"

text \<open>The blocker of the extension test checks in on day 5: \<open>432000000 = 5 * msPerDay\<close>.\<close>

definition blocker :: Booking where
  "blocker =
     \<lparr>guestName = ''GuestC'', unitID = ''1'', checkInDate = 432000000, numberOfNights = 2\<rparr>"

definition emptyDb :: db where
  "emptyDb = \<lparr>rows = [], nextId = 1, calls = []\<rparr>"

text \<open>The store after the first request of most tests: \<open>GuestA\<close> holds unit 1.\<close>

definition dbGuestA :: db where
  "dbGuestA = snd (createBooking utcHost GUEST_A_UNIT_1 emptyDb)"

text \<open>The store of the test of a blocked extension: \<open>GuestC\<close> follows \<open>GuestA\<close> on unit 1.\<close>

definition dbBlocked :: db where
  "dbBlocked = snd (createBooking utcHost blocker dbGuestA)"

text \<open>A third guest who arrives on day 7, when \<open>GuestC\<close> leaves.\<close>

definition followUp :: Booking where
  "followUp =
     \<lparr>guestName = ''GuestD'', unitID = ''1'', checkInDate = 604800000, numberOfNights = 3\<rparr>"

text \<open>
  Requests the controller accepts although they fall outside the data model: a stay
  of no nights on day 5, and an arrival on the day of that stay.
\<close>

definition zeroNightStay :: Booking where
  "zeroNightStay =
     \<lparr>guestName = ''GuestB'', unitID = ''1'', checkInDate = 432000000, numberOfNights = 0\<rparr>"



text \<open>The stay of no nights on the day \<open>GuestA\<close> checks out of unit 1.\<close>

definition dbTouching :: db where
  "dbTouching = snd (createBooking utcHost zeroNightStay dbGuestA)"

text \<open>
  A store with one booking of 200000000 nights, whose checkout is beyond the last
  valid date, and a stay of five nights from the same day.
\<close>

definition dbHuge :: db where
  "dbHuge =
     \<lparr>rows = [\<lparr>guestName = ''GuestA'', unitID = ''1'', checkInDate = 0,
               numberOfNights = 200000000, bookingId = 1\<rparr>],
      nextId = 2, calls = []\<rparr>"

definition fiveNights :: Booking where
  "fiveNights =
     \<lparr>guestName = ''GuestC'', unitID = ''1'', checkInDate = 0, numberOfNights = 5\<rparr>"

text \<open>
  New York, autumn 2026: \<open>GuestA\<close> checks in on 30 October (day 20756, midnight UTC) for
  5 nights, and \<open>GuestC\<close> on 4 November (day 20761), the day \<open>GuestA\<close> leaves.
\<close>

definition autumnStay :: Booking where
  "autumnStay =
     \<lparr>guestName = ''GuestA'', unitID = ''1'', checkInDate = 20756 * msPerDay,
      numberOfNights = 5\<rparr>"

definition autumnArrival :: Booking where
  "autumnArrival =
     \<lparr>guestName = ''GuestC'', unitID = ''1'', checkInDate = 20761 * msPerDay,
      numberOfNights = 2\<rparr>"

definition dbAutumn :: db where
  "dbAutumn = snd (createBooking easternHost autumnStay emptyDb)"

section \<open>The arithmetic of dates\<close>

lemma msPerDay_pos: "0 < msPerDay"
  by (simp add: msPerDay_def)

lemma month_day_positive: "1 \<le> y - (153 * ((5 * y + 2) div 153) + 2) div 5 + 1" for y :: int
proof -
  have "153 * ((5 * y + 2) div 153) \<le> 5 * y + 2"
    using mult_div_mod_eq [of 153 "5 * y + 2"] pos_mod_sign [of 153 "5 * y + 2"] by linarith
  then have "153 * ((5 * y + 2) div 153) + 2 \<le> 5 * y + 4" by simp
  then have "(153 * ((5 * y + 2) div 153) + 2) div 5 \<le> (5 * y + 4) div 5"
    by (rule zdiv_mono1) simp
  also have "(5 * y + 4) div 5 = y" by simp
  finally show ?thesis by simp
qed

lemma DateFromTime_ge_1: "1 \<le> DateFromTime t"
  unfolding DateFromTime_def Let_def by (rule month_day_positive)

text \<open>
  The first and the last of January 1970, the end of February 1970, the 30th of October
  2026 at midnight UTC and four hours earlier, the last millisecond of 1969, and the
  29th of February 2024.
\<close>

lemma DateFromTime_samples:
  "DateFromTime 0 = 1"
  "DateFromTime (30 * msPerDay) = 31"
  "DateFromTime (31 * msPerDay) = 1"
  "DateFromTime (58 * msPerDay + 5) = 28"
  "DateFromTime (59 * msPerDay) = 1"
  "DateFromTime (20756 * msPerDay) = 30"
  "DateFromTime (20756 * msPerDay - 4 * msPerHour) = 29"
  "DateFromTime (- 1) = 31"
  "DateFromTime (19782 * msPerDay) = 29"
  by code_simp+

lemma truncate_day:
  assumes "1 \<le> d" and "0 \<le> n \<or> n \<in> \<int>"
  shows "ToIntegerOrInfinity (of_int d + n) = d + \<lfloor>n\<rfloor>"
proof (cases "0 \<le> n")
  case True
  with assms(1) have "0 \<le> of_int d + n" by simp
  then show ?thesis by (simp add: ToIntegerOrInfinity_def)
next
  case False
  with assms(2) obtain k where k: "n = of_int k" by (auto elim: Ints_cases)
  have "\<lceil>(of_int d :: rat) + of_int k\<rceil> = d + k" "\<lfloor>(of_int d :: rat) + of_int k\<rfloor> = d + k"
    by linarith+
  then show ?thesis by (simp add: ToIntegerOrInfinity_def k)
qed

lemma day_plus:
  "(t div msPerDay - (d - 1) + (d + k) - 1) * msPerDay + t mod msPerDay = t + k * msPerDay"
proof -
  have "(t div msPerDay - (d - 1) + (d + k) - 1) = t div msPerDay + k" by simp
  then have "(t div msPerDay - (d - 1) + (d + k) - 1) * msPerDay + t mod msPerDay =
      (t div msPerDay) * msPerDay + t mod msPerDay + k * msPerDay"
    by (simp add: distrib_right)
  then show ?thesis by simp
qed

text \<open>
  For a night count that is whole or not negative, \<^verbatim>\<open>setDate(getDate() + n)\<close> moves the
  date by \<open>\<lfloor>n\<rfloor>\<close> days of local time.
\<close>

lemma setDate_getDate:
  assumes "0 \<le> n \<or> n \<in> \<int>"
  shows "setDate h t (of_int (getDate h t) + n) =
     TimeClip (t + utcOffset h t + \<lfloor>n\<rfloor> * msPerDay
               - localOffset h (t + utcOffset h t + \<lfloor>n\<rfloor> * msPerDay))"
proof -
  let ?tl = "t + utcOffset h t"
  have tr: "ToIntegerOrInfinity (of_int (DateFromTime ?tl) + n) = DateFromTime ?tl + \<lfloor>n\<rfloor>"
    using DateFromTime_ge_1 assms by (rule truncate_day)
  show ?thesis
    unfolding setDate_def getDate_def LocalTime_def UTC_def Day_def TimeWithinDay_def Let_def
      tr day_plus ..
qed

lemma addNights_fixed:
  assumes "fixedOffset h" and "0 \<le> n \<or> n \<in> \<int>"
  shows "addNights h t n = TimeClip (t + \<lfloor>n\<rfloor> * msPerDay)"
proof -
  from assms(1) obtain c where "\<And>t. utcOffset h t = c" "\<And>t. localOffset h t = c"
    by (auto simp: fixedOffset_def)
  then show ?thesis
    by (simp add: addNights_def setDate_getDate [OF assms(2)])
qed

lemma fixedOffset_utcHost: "fixedOffset utcHost"
  by (auto simp: fixedOffset_def utcHost_def)

lemma addNights_utc: "0 \<le> n \<Longrightarrow> addNights utcHost t n = TimeClip (t + \<lfloor>n\<rfloor> * msPerDay)"
  by (simp add: addNights_fixed [OF fixedOffset_utcHost])

lemma fixedOffset_steady: "fixedOffset h \<Longrightarrow> steadyHost h"
  by (auto simp: fixedOffset_def steadyHost_def msPerDay_def)

lemma steadyHost_eastern: "steadyHost easternHost"
  by (simp add: steadyHost_def easternHost_def msPerDay_def msPerHour_def)

lemma isWhole_iff: "isWhole n \<longleftrightarrow> n \<in> \<int>"
  by (auto simp: isWhole_def elim: Ints_cases)

lemma before_Some [simp]: "before (Some x) (Some y) \<longleftrightarrow> x < y"
  by (simp add: before_def)

lemma before_None [simp]: "\<not> before a None" "\<not> before None b"
  by (simp_all add: before_def split: option.splits)

section \<open>The loops and the queries\<close>

lemma overlapLoop_iff:
  "overlapLoop h ci co bs \<longleftrightarrow>
     (\<exists>b \<in> set bs. before (Some ci) (addNights h (checkInDate b) (numberOfNights b)) \<and>
                    before (Some (checkInDate b)) co)"
  by (induction bs) (auto simp: Let_def)

lemma conflictLoop_iff:
  "conflictLoop h cur prop bs \<longleftrightarrow>
     (\<exists>b \<in> set bs. before cur (addNights h (checkInDate b) (numberOfNights b)) \<and>
                    before (Some (checkInDate b)) prop)"
  by (induction bs) (auto simp: Let_def)

lemma filter_nonempty_iff: "length (filter P xs) > 0 \<longleftrightarrow> (\<exists>x \<in> set xs. P x)"
  by (induction xs) auto

lemma reasons_distinct:
  "GUEST_UNIT_DUPLICATE \<noteq> GUEST_ALREADY_BOOKED"
  "GUEST_UNIT_DUPLICATE \<noteq> UNIT_OCCUPIED"
  "GUEST_ALREADY_BOOKED \<noteq> UNIT_OCCUPIED"
  "GUEST_UNIT_DUPLICATE \<noteq> ''OK''"
  "GUEST_ALREADY_BOOKED \<noteq> ''OK''"
  "UNIT_OCCUPIED \<noteq> ''OK''"
  by (simp_all add: GUEST_UNIT_DUPLICATE_def GUEST_ALREADY_BOOKED_def UNIT_OCCUPIED_def)

lemma check1_query:
  "0 < length (filter (\<lambda>r. guestName r = guestName c \<and> unitID r = unitID c) rs)
     \<longleftrightarrow> sameGuestSameUnit c rs"
  by (simp add: sameGuestSameUnit_def filter_nonempty_iff del: length_greater_0_conv)

lemma check2_query:
  "0 < length (filter (\<lambda>r. guestName r = guestName c) rs) \<longleftrightarrow> guestAlreadyBooked c rs"
  by (simp add: guestAlreadyBooked_def filter_nonempty_iff del: length_greater_0_conv)

lemma check3_query:
  "0 < length (filter (\<lambda>r. checkInDate r = checkInDate c \<and> unitID r = unitID c) rs)
     \<longleftrightarrow> exactCheckInCollision c rs"
  by (auto simp add: exactCheckInCollision_def filter_nonempty_iff
        simp del: length_greater_0_conv)

lemma check4_query:
  "overlapLoop h (checkInDate c) (addNights h (checkInDate c) (numberOfNights c))
     (filter (\<lambda>r. unitID r = unitID c \<and>
                   before (Some (checkInDate r))
                     (addNights h (checkInDate c) (numberOfNights c))) rs)
     \<longleftrightarrow> intervalOverlap h c rs"
  by (auto simp add: intervalOverlap_def computedCheckOut_def overlapLoop_iff)

lemma isBookingPossible_fst:
  "fst (isBookingPossible h c s) = evaluateNewBooking_spec h c (rows s)"
  by (simp add: isBookingPossible_def evaluateNewBooking_spec_def findMany_def Let_def
        check1_query check2_query check3_query check4_query del: length_greater_0_conv)

lemma isBookingPossible_snd:
  "rows (snd (isBookingPossible h c s)) = rows s"
  "nextId (snd (isBookingPossible h c s)) = nextId s"
  by (simp_all add: isBookingPossible_def findMany_def Let_def)

text \<open>The row \<^verbatim>\<open>create\<close> stores for a request.\<close>

lemma createBooking_rows:
  "rows (snd (createBooking h c s)) =
     (if result (evaluateNewBooking_spec h c (rows s)) \<and> isWhole (numberOfNights c)
      then rows s @ [\<lparr>guestName = guestName c, unitID = unitID c,
                       checkInDate = checkInDate c, numberOfNights = numberOfNights c,
                       bookingId = nextId s\<rparr>]
      else rows s)"
  using isBookingPossible_fst [of h c s] isBookingPossible_snd [of h c s]
  by (cases "isBookingPossible h c s") (simp add: createBooking_def create_def Let_def)

lemma createBooking_nextId:
  "nextId (snd (createBooking h c s)) =
     (if result (evaluateNewBooking_spec h c (rows s)) \<and> isWhole (numberOfNights c)
      then nextId s + 1 else nextId s)"
  using isBookingPossible_fst [of h c s] isBookingPossible_snd [of h c s]
  by (cases "isBookingPossible h c s") (simp add: createBooking_def create_def Let_def)

lemma createBooking_fst:
  "fst (createBooking h c s) =
     (if result (evaluateNewBooking_spec h c (rows s))
      then (if isWhole (numberOfNights c)
            then Inr (Response 200 (Row \<lparr>guestName = guestName c, unitID = unitID c,
                       checkInDate = checkInDate c, numberOfNights = numberOfNights c,
                       bookingId = nextId s\<rparr>))
            else Inl InvalidValue)
      else Inr (Response 400 (Text (reason (evaluateNewBooking_spec h c (rows s))))))"
  using isBookingPossible_fst [of h c s] isBookingPossible_snd [of h c s]
  by (cases "isBookingPossible h c s") (simp add: createBooking_def create_def Let_def)

lemma emptyDb_accepts:
  "evaluateNewBooking_spec h c [] = \<lparr>result = True, reason = ''OK''\<rparr>"
  by (simp add: evaluateNewBooking_spec_def sameGuestSameUnit_def guestAlreadyBooked_def
        exactCheckInCollision_def intervalOverlap_def)

lemma dbGuestA_rows:
  "rows dbGuestA =
     [\<lparr>guestName = ''GuestA'', unitID = ''1'', checkInDate = 0, numberOfNights = 5,
       bookingId = 1\<rparr>]"
  by (simp add: dbGuestA_def createBooking_rows emptyDb_accepts emptyDb_def
        GUEST_A_UNIT_1_def isWhole_def)

lemma dbGuestA_nextId: "nextId dbGuestA = 2"
  by (simp add: dbGuestA_def createBooking_nextId emptyDb_accepts emptyDb_def
        GUEST_A_UNIT_1_def isWhole_def)

lemma dbBlocked_rows:
  "rows dbBlocked =
     [\<lparr>guestName = ''GuestA'', unitID = ''1'', checkInDate = 0, numberOfNights = 5,
       bookingId = 1\<rparr>,
      \<lparr>guestName = ''GuestC'', unitID = ''1'', checkInDate = 432000000, numberOfNights = 2,
       bookingId = 2\<rparr>]"
  by (simp add: dbBlocked_def createBooking_rows dbGuestA_rows dbGuestA_nextId
        evaluateNewBooking_spec_def sameGuestSameUnit_def guestAlreadyBooked_def
        exactCheckInCollision_def intervalOverlap_def computedCheckOut_def
        addNights_utc TimeClip_def maxTime_def msPerDay_def blocker_def isWhole_def)

lemma dbBlocked_nextId: "nextId dbBlocked = 3"
  by (simp add: dbBlocked_def createBooking_nextId dbGuestA_rows dbGuestA_nextId
        evaluateNewBooking_spec_def sameGuestSameUnit_def guestAlreadyBooked_def
        exactCheckInCollision_def intervalOverlap_def computedCheckOut_def
        addNights_utc TimeClip_def maxTime_def msPerDay_def blocker_def isWhole_def)


lemma dbTouching_rows:
  "rows dbTouching =
     [\<lparr>guestName = ''GuestA'', unitID = ''1'', checkInDate = 0, numberOfNights = 5,
       bookingId = 1\<rparr>,
      \<lparr>guestName = ''GuestB'', unitID = ''1'', checkInDate = 432000000, numberOfNights = 0,
       bookingId = 2\<rparr>]"
  by (simp add: dbTouching_def createBooking_rows dbGuestA_rows dbGuestA_nextId
        evaluateNewBooking_spec_def sameGuestSameUnit_def guestAlreadyBooked_def
        exactCheckInCollision_def intervalOverlap_def computedCheckOut_def
        addNights_utc TimeClip_def maxTime_def msPerDay_def zeroNightStay_def isWhole_def)

lemma dbTouching_nextId: "nextId dbTouching = 3"
  by (simp add: dbTouching_def createBooking_nextId dbGuestA_rows dbGuestA_nextId
        evaluateNewBooking_spec_def sameGuestSameUnit_def guestAlreadyBooked_def
        exactCheckInCollision_def intervalOverlap_def computedCheckOut_def
        addNights_utc TimeClip_def maxTime_def msPerDay_def zeroNightStay_def isWhole_def)

section \<open>The paths of \<^verbatim>\<open>extendBooking\<close>\<close>

lemma find_id: "find (\<lambda>r. bookingId r = i) rs = Some b \<Longrightarrow> bookingId b = i \<and> b \<in> set rs"
  by (induction rs) (auto split: if_splits)

lemma find_unique_row:
  "distinct (map bookingId rs) \<Longrightarrow> find (\<lambda>r. bookingId r = i) rs = Some b \<Longrightarrow>
     r \<in> set rs \<Longrightarrow> bookingId r = i \<Longrightarrow> r = b"
  by (induction rs) (auto split: if_splits)

lemma setNights_fields:
  "bookingId (setNights i n r) = bookingId r"
  "guestName (setNights i n r) = guestName r"
  "unitID (setNights i n r) = unitID r"
  "checkInDate (setNights i n r) = checkInDate r"
  by (simp_all add: setNights_def)

lemma conflict_query:
  "conflictLoop h (computedCheckOut h b) (computedProposal h b x)
     (filter (\<lambda>r. unitID r = unitID b \<and> bookingId r \<noteq> bookingId b \<and>
                   before (Some (checkInDate r)) (computedProposal h b x)) rs)
     \<longleftrightarrow> computedConflict h b x rs"
  by (auto simp add: computedConflict_def computedCheckOut_def conflictLoop_iff)

lemma handler_checkouts:
  "setDate h (checkInDate b) (of_int (getDate h (checkInDate b)) + numberOfNights b) =
     computedCheckOut h b"
  "(case computedCheckOut h b of None \<Rightarrow> None
    | Some c \<Rightarrow> setDate h c (of_int (getDate h c) + x)) = computedProposal h b x"
  by (simp_all add: computedCheckOut_def computedProposal_def addNights_def
        split: option.splits)

lemma extendBooking_invalid:
  "e = NaN \<or> (\<exists>x. e = Num x \<and> x \<le> 0) \<Longrightarrow>
     extendBooking h i e s = (Inr INVALID_EXTRA_NIGHTS, s)"
  by (auto simp add: extendBooking_def)

lemma extendBooking_not_found:
  "0 < x \<Longrightarrow> find (\<lambda>r. bookingId r = i) (rows s) = None \<Longrightarrow>
     extendBooking h i (Num x) s =
       (Inr BOOKING_NOT_FOUND, s\<lparr>calls := calls s @ [FindUnique]\<rparr>)"
  by (simp add: extendBooking_def findUnique_def)

lemma extendBooking_found:
  assumes "0 < x" and "find (\<lambda>r. bookingId r = i) (rows s) = Some b"
  shows "extendBooking h i (Num x) s =
       (if computedConflict h b x (rows s)
        then (Inr EXTENSION_CONFLICT, s\<lparr>calls := calls s @ [FindUnique, FindMany]\<rparr>)
        else if isWhole (numberOfNights b + x)
        then (Inr (Response 200 (Row (b\<lparr>numberOfNights := numberOfNights b + x\<rparr>))),
              s\<lparr>rows := map (setNights i (numberOfNights b + x)) (rows s),
                calls := calls s @ [FindUnique, FindMany, Update i (numberOfNights b + x)]\<rparr>)
        else (Inl InvalidValue,
              s\<lparr>calls := calls s @ [FindUnique, FindMany, Update i (numberOfNights b + x)]\<rparr>))"
proof -
  have i: "bookingId b = i" using find_id [OF assms(2)] by simp
  show ?thesis
    using assms conflict_query [of h b x "rows s"]
    by (simp add: extendBooking_def findUnique_def findMany_def update_def Let_def i
          handler_checkouts)
qed

lemma responses_distinct:
  "INVALID_EXTRA_NIGHTS \<noteq> BOOKING_NOT_FOUND"
  "INVALID_EXTRA_NIGHTS \<noteq> EXTENSION_CONFLICT"
  "INVALID_EXTRA_NIGHTS \<noteq> Response 200 p"
  "BOOKING_NOT_FOUND \<noteq> EXTENSION_CONFLICT"
  "BOOKING_NOT_FOUND \<noteq> Response 200 p"
  "EXTENSION_CONFLICT \<noteq> Response 200 p"
  "Response 200 p \<noteq> INVALID_EXTRA_NIGHTS"
  "Response 200 p \<noteq> BOOKING_NOT_FOUND"
  "Response 200 p \<noteq> EXTENSION_CONFLICT"
  "BOOKING_NOT_FOUND \<noteq> INVALID_EXTRA_NIGHTS"
  "EXTENSION_CONFLICT \<noteq> INVALID_EXTRA_NIGHTS"
  "EXTENSION_CONFLICT \<noteq> BOOKING_NOT_FOUND"
  by (simp_all add: INVALID_EXTRA_NIGHTS_def BOOKING_NOT_FOUND_def EXTENSION_CONFLICT_def)

text \<open>Every request leaves the rows as they are, or is accepted and changes one night count.\<close>

lemma extendBooking_rows_cases:
  "rows (snd (extendBooking h i e s)) = rows s \<or>
   (\<exists>b x. e = Num x \<and> 0 < x \<and> find (\<lambda>r. bookingId r = i) (rows s) = Some b \<and>
      \<not> computedConflict h b x (rows s) \<and> isWhole (numberOfNights b + x) \<and>
      fst (extendBooking h i e s) =
        Inr (Response 200 (Row (b\<lparr>numberOfNights := numberOfNights b + x\<rparr>))) \<and>
      rows (snd (extendBooking h i e s)) = map (setNights i (numberOfNights b + x)) (rows s))"
proof (cases e)
  case NaN
  then show ?thesis by (simp add: extendBooking_invalid)
next
  case (Num x)
  show ?thesis
  proof (cases "x \<le> 0")
    case True
    with Num show ?thesis by (simp add: extendBooking_invalid)
  next
    case False
    then have pos: "0 < x" by simp
    show ?thesis
    proof (cases "find (\<lambda>r. bookingId r = i) (rows s)")
      case None
      with pos Num show ?thesis by (simp add: extendBooking_not_found)
    next
      case (Some b)
      with pos Num show ?thesis by (simp add: extendBooking_found)
    qed
  qed
qed

lemma extendBooking_nextId: "nextId (snd (extendBooking h i e s)) = nextId s"
proof (cases e)
  case NaN
  then show ?thesis by (simp add: extendBooking_invalid)
next
  case (Num x)
  show ?thesis
  proof (cases "x \<le> 0")
    case True
    with Num show ?thesis by (simp add: extendBooking_invalid)
  next
    case False
    then have pos: "0 < x" by simp
    show ?thesis
    proof (cases "find (\<lambda>r. bookingId r = i) (rows s)")
      case None
      with pos Num show ?thesis by (simp add: extendBooking_not_found)
    next
      case (Some b)
      with pos Num show ?thesis by (simp add: extendBooking_found)
    qed
  qed
qed

lemma extendBooking_accepted:
  assumes "fst (extendBooking h i e s) = Inr (Response 200 (Row u))"
  shows "\<exists>b x. e = Num x \<and> 0 < x \<and> find (\<lambda>r. bookingId r = i) (rows s) = Some b \<and>
      \<not> computedConflict h b x (rows s) \<and> isWhole (numberOfNights b + x) \<and>
      u = b\<lparr>numberOfNights := numberOfNights b + x\<rparr> \<and>
      rows (snd (extendBooking h i e s)) = map (setNights i (numberOfNights b + x)) (rows s)"
proof (cases e)
  case NaN
  with assms show ?thesis by (simp add: extendBooking_invalid responses_distinct)
next
  case (Num x)
  show ?thesis
  proof (cases "x \<le> 0")
    case True
    with Num assms show ?thesis by (simp add: extendBooking_invalid responses_distinct)
  next
    case False
    then have pos: "0 < x" by simp
    show ?thesis
    proof (cases "find (\<lambda>r. bookingId r = i) (rows s)")
      case None
      with pos Num assms show ?thesis
        by (simp add: extendBooking_not_found responses_distinct)
    next
      case (Some b)
      with pos Num assms show ?thesis
        by (auto simp add: extendBooking_found responses_distinct split: if_splits)
    qed
  qed
qed

section \<open>Computed dates and the interval model\<close>

lemma floor_add_whole: "n \<in> \<int> \<Longrightarrow> \<lfloor>n + x\<rfloor> = \<lfloor>n\<rfloor> + \<lfloor>x :: rat\<rfloor>"
  by (auto elim!: Ints_cases)

lemma checkOutDate_whole:
  "numberOfNights r \<in> \<int> \<Longrightarrow>
     checkOutDate r = of_int (checkInDate r + \<lfloor>numberOfNights r\<rfloor> * msPerDay)"
  by (auto simp add: checkOutDate_def elim!: Ints_cases)

lemma checkIn_before_checkOut:
  assumes "1 \<le> numberOfNights b"
  shows "of_int (checkInDate b) < checkOutDate b"
proof -
  have "(0::rat) < of_int msPerDay" using msPerDay_pos by simp
  with assms have "0 < numberOfNights b * of_int msPerDay"
    by (simp add: zero_less_mult_iff)
  then show ?thesis by (simp add: checkOutDate_def)
qed

text \<open>
  On a host with a fixed offset, a whole night count gives the checkout of the interval
  model, or an Invalid Date when that is out of range.
\<close>

lemma computedCheckOut_fixed:
  assumes "fixedOffset h" and "numberOfNights r \<in> \<int>"
  shows "computedCheckOut h r =
     TimeClip (checkInDate r + \<lfloor>numberOfNights r\<rfloor> * msPerDay)"
  using assms by (simp add: computedCheckOut_def addNights_fixed)


lemma computedCheckOut_inRange:
  assumes "fixedOffset h" and "numberOfNights r \<in> \<int>"
    and "\<bar>checkOutDate r\<bar> \<le> of_int maxTime"
  shows "computedCheckOut h r = Some (checkInDate r + \<lfloor>numberOfNights r\<rfloor> * msPerDay)"
proof -
  have "\<bar>(of_int (checkInDate r + \<lfloor>numberOfNights r\<rfloor> * msPerDay) :: rat)\<bar> \<le> of_int maxTime"
    using assms(3) by (simp only: checkOutDate_whole [OF assms(2)])
  then have "\<bar>checkInDate r + \<lfloor>numberOfNights r\<rfloor> * msPerDay\<bar> \<le> maxTime"
    by linarith
  then show ?thesis
    by (simp add: computedCheckOut_fixed [OF assms(1,2)] TimeClip_def)
qed

lemma before_computed:
  assumes "fixedOffset h" and "numberOfNights r \<in> \<int>"
    and "\<bar>checkOutDate r\<bar> \<le> of_int maxTime"
  shows "before (Some x) (computedCheckOut h r) \<longleftrightarrow> of_int x < checkOutDate r"
    and "before (computedCheckOut h r) (Some x) \<longleftrightarrow> checkOutDate r < of_int x"
  unfolding computedCheckOut_inRange [OF assms] checkOutDate_whole [OF assms(2)]
  by (simp_all only: before_Some of_int_less_iff)

lemma before_computed_both:
  assumes "fixedOffset h" and "numberOfNights a \<in> \<int>" and "numberOfNights r \<in> \<int>"
    and "\<bar>checkOutDate a\<bar> \<le> of_int maxTime" and "\<bar>checkOutDate r\<bar> \<le> of_int maxTime"
  shows "before (computedCheckOut h a) (computedCheckOut h r) \<longleftrightarrow>
     checkOutDate a < checkOutDate r"
  unfolding computedCheckOut_inRange [OF assms(1,2,4)] computedCheckOut_inRange [OF assms(1,3,5)]
    checkOutDate_whole [OF assms(2)] checkOutDate_whole [OF assms(3)]
  by (simp only: before_Some of_int_less_iff)

lemma computedProposal_inRange:
  assumes "fixedOffset h" and "numberOfNights b \<in> \<int>" and "x \<in> \<int>"
    and "\<bar>checkOutDate b\<bar> \<le> of_int maxTime"
    and "\<bar>proposedCheckout b x\<bar> \<le> of_int maxTime"
  shows "computedProposal h b x =
     Some (checkInDate b + \<lfloor>numberOfNights b\<rfloor> * msPerDay + \<lfloor>x\<rfloor> * msPerDay)"
    and "proposedCheckout b x =
     of_int (checkInDate b + \<lfloor>numberOfNights b\<rfloor> * msPerDay + \<lfloor>x\<rfloor> * msPerDay)"
proof -
  show p: "proposedCheckout b x =
     of_int (checkInDate b + \<lfloor>numberOfNights b\<rfloor> * msPerDay + \<lfloor>x\<rfloor> * msPerDay)"
    using assms(3)
    by (auto simp add: proposedCheckout_def checkOutDate_whole [OF assms(2)] elim!: Ints_cases)
  have "\<bar>(of_int (checkInDate b + \<lfloor>numberOfNights b\<rfloor> * msPerDay + \<lfloor>x\<rfloor> * msPerDay) :: rat)\<bar>
      \<le> of_int maxTime"
    using assms(5) by (simp only: p)
  then have "\<bar>checkInDate b + \<lfloor>numberOfNights b\<rfloor> * msPerDay + \<lfloor>x\<rfloor> * msPerDay\<bar> \<le> maxTime"
    by linarith
  then show "computedProposal h b x =
     Some (checkInDate b + \<lfloor>numberOfNights b\<rfloor> * msPerDay + \<lfloor>x\<rfloor> * msPerDay)"
    using assms(3)
    by (simp add: computedProposal_def computedCheckOut_inRange [OF assms(1,2,4)]
          addNights_fixed [OF assms(1)] TimeClip_def)
qed

text \<open>
  With whole numbers, a fixed offset and dates in range, the conflict scan of the
  handler decides the conflict of section 4.3.
\<close>

lemma conflict_bridge:
  assumes h: "fixedOffset h" and w: "wholeNights rs" and d: "datesInRange rs"
    and b: "b \<in> set rs" and x: "x \<in> \<int>"
    and p: "\<bar>proposedCheckout b x\<bar> \<le> of_int maxTime"
  shows "computedConflict h b x rs \<longleftrightarrow> extensionConflict b x rs"
proof -
  have wb: "numberOfNights b \<in> \<int>" and db: "\<bar>checkOutDate b\<bar> \<le> of_int maxTime"
    using w d b by (simp_all add: wholeNights_def datesInRange_def)
  note pc = computedProposal_inRange [OF h wb x db p]
  have "before (Some (checkInDate other)) (computedProposal h b x) \<and>
        before (computedCheckOut h b) (computedCheckOut h other) \<longleftrightarrow>
        of_int (checkInDate other) < proposedCheckout b x \<and>
        checkOutDate b < checkOutDate other" if "other \<in> set rs" for other
  proof -
    have wo: "numberOfNights other \<in> \<int>"
      and ro: "\<bar>checkOutDate other\<bar> \<le> of_int maxTime"
      using w d that by (simp_all add: wholeNights_def datesInRange_def)
    show ?thesis
      unfolding before_computed_both [OF h wb wo db ro] pc
      by (simp only: before_Some of_int_less_iff)
  qed
  then show ?thesis
    by (auto simp add: computedConflict_def extensionConflict_def)
qed

lemma shift_below_day:
  "- D < 2 * (a - b) \<Longrightarrow> 0 < D \<Longrightarrow> D \<le> K \<Longrightarrow> 0 < a + K - b" for a b D K :: int
  by arith

text \<open>On a steady host a stay of at least one night ends after it starts.\<close>

lemma steady_later:
  assumes "steadyHost h" and "1 \<le> n" and "addNights h t n = Some y"
  shows "t < y"
proof -
  let ?k = "\<lfloor>n\<rfloor>"
  let ?a = "utcOffset h t"
  let ?b = "localOffset h (t + utcOffset h t + ?k * msPerDay)"
  have k: "1 \<le> ?k" using assms(2) by (simp add: le_floor_iff)
  have "0 \<le> n \<or> n \<in> \<int>" using assms(2) by simp
  then have "addNights h t n = TimeClip (t + ?a + ?k * msPerDay - ?b)"
    by (simp add: addNights_def setDate_getDate)
  with assms(3) have y: "y = t + ?a + ?k * msPerDay - ?b"
    by (simp add: TimeClip_def split: if_splits)
  have "2 * \<bar>?a - ?b\<bar> < msPerDay"
    using assms(1) by (simp add: steadyHost_def)
  then have ab: "- msPerDay < 2 * (?a - ?b)" by arith
  have "msPerDay \<le> ?k * msPerDay"
    using k msPerDay_pos by (simp add: mult_le_cancel_right)
  with ab msPerDay_pos have "0 < ?a + ?k * msPerDay - ?b" by (rule shift_below_day)
  then show ?thesis unfolding y by simp
qed

section \<open>The sample stores under extension\<close>

lemma floor_half: "\<lfloor>1 / 2 :: rat\<rfloor> = 0"
  by (simp add: floor_eq_iff)

lemma half_not_whole: "\<not> isWhole (11 / 2)" "\<not> isWhole (13 / 2)"
proof -
  have "\<lfloor>11 / 2 :: rat\<rfloor> = 5" "\<lfloor>13 / 2 :: rat\<rfloor> = 6" by (simp_all add: floor_eq_iff)
  then show "\<not> isWhole (11 / 2)" "\<not> isWhole (13 / 2)" by (simp_all add: isWhole_def)
qed


lemma dbBlocked_find:
  "find (\<lambda>r. bookingId r = 1) (rows dbBlocked) =
     Some \<lparr>guestName = ''GuestA'', unitID = ''1'', checkInDate = 0, numberOfNights = 5,
           bookingId = 1\<rparr>"
  "find (\<lambda>r. bookingId r = 2) (rows dbBlocked) =
     Some \<lparr>guestName = ''GuestC'', unitID = ''1'', checkInDate = 432000000,
           numberOfNights = 2, bookingId = 2\<rparr>"
  by (simp_all add: dbBlocked_rows)

text \<open>
  \<open>GuestA\<close> asks for one more night, or for half a night, while \<open>GuestC\<close> arrives on day
  5: the handler proposes day 6, where it finds \<open>GuestC\<close>, or again day 5, where it finds
  nobody.
\<close>

lemma dbBlocked_conflicts:
  "computedConflict utcHost
     \<lparr>guestName = ''GuestA'', unitID = ''1'', checkInDate = 0, numberOfNights = 5,
      bookingId = 1\<rparr> 1 (rows dbBlocked)"
  "\<not> computedConflict utcHost
     \<lparr>guestName = ''GuestA'', unitID = ''1'', checkInDate = 0, numberOfNights = 5,
      bookingId = 1\<rparr> (1 / 2) (rows dbBlocked)"
  "\<not> computedConflict utcHost
     \<lparr>guestName = ''GuestC'', unitID = ''1'', checkInDate = 432000000, numberOfNights = 2,
      bookingId = 2\<rparr> 3 (rows dbBlocked)"
  by (simp_all add: computedConflict_def computedProposal_def computedCheckOut_def
        addNights_utc TimeClip_def maxTime_def msPerDay_def dbBlocked_rows floor_half)

lemma extend_dbBlocked:
  "fst (extendBooking utcHost 1 (Num 1) dbBlocked) = Inr EXTENSION_CONFLICT"
  "fst (extendBooking utcHost 1 (Num (1 / 2)) dbBlocked) = Inl InvalidValue"
  "fst (extendBooking utcHost 2 (Num 3) dbBlocked) =
     Inr (Response 200 (Row \<lparr>guestName = ''GuestC'', unitID = ''1'', checkInDate = 432000000,
                              numberOfNights = 5, bookingId = 2\<rparr>))"
  "rows (snd (extendBooking utcHost 2 (Num 3) dbBlocked)) =
     [\<lparr>guestName = ''GuestA'', unitID = ''1'', checkInDate = 0, numberOfNights = 5,
       bookingId = 1\<rparr>,
      \<lparr>guestName = ''GuestC'', unitID = ''1'', checkInDate = 432000000, numberOfNights = 5,
       bookingId = 2\<rparr>]"
proof -
  have p: "(0::rat) < 1" "(0::rat) < 1 / 2" "(0::rat) < 3" by simp_all
  show "fst (extendBooking utcHost 1 (Num 1) dbBlocked) = Inr EXTENSION_CONFLICT"
    using dbBlocked_conflicts(1)
    by (simp add: extendBooking_found [OF p(1) dbBlocked_find(1)])
  show "fst (extendBooking utcHost 1 (Num (1 / 2)) dbBlocked) = Inl InvalidValue"
    using dbBlocked_conflicts(2) half_not_whole(1)
    by (simp add: extendBooking_found [OF p(2) dbBlocked_find(1)])
  show "fst (extendBooking utcHost 2 (Num 3) dbBlocked) =
     Inr (Response 200 (Row \<lparr>guestName = ''GuestC'', unitID = ''1'', checkInDate = 432000000,
                              numberOfNights = 5, bookingId = 2\<rparr>))"
    using dbBlocked_conflicts(3)
    by (simp add: extendBooking_found [OF p(3) dbBlocked_find(2)] isWhole_def)
  show "rows (snd (extendBooking utcHost 2 (Num 3) dbBlocked)) =
     [\<lparr>guestName = ''GuestA'', unitID = ''1'', checkInDate = 0, numberOfNights = 5,
       bookingId = 1\<rparr>,
      \<lparr>guestName = ''GuestC'', unitID = ''1'', checkInDate = 432000000, numberOfNights = 5,
       bookingId = 2\<rparr>]"
    using dbBlocked_conflicts(3)
    by (simp add: extendBooking_found [OF p(3) dbBlocked_find(2)] isWhole_def
          dbBlocked_rows setNights_def)
qed


text \<open>
  New York, autumn 2026: \<open>GuestA\<close>'s five nights from 30 October end on 4 November at
  01:00 UTC, an hour after \<open>GuestC\<close> checks in.
\<close>

lemma autumn_checkout:
  "addNights easternHost (20756 * msPerDay) 5 = Some (20761 * msPerDay + msPerHour)"
  by (simp add: addNights_def setDate_getDate easternHost_def TimeClip_def
        msPerDay_def msPerHour_def maxTime_def)

lemma dbAutumn_rows:
  "rows dbAutumn =
     [\<lparr>guestName = ''GuestA'', unitID = ''1'', checkInDate = 20756 * msPerDay,
       numberOfNights = 5, bookingId = 1\<rparr>]"
  by (simp add: dbAutumn_def createBooking_rows emptyDb_accepts emptyDb_def
        autumnStay_def isWhole_def)

lemma back_to_back_rejected_in_autumn:
  "\<not> guestAlreadyBooked autumnArrival (rows dbAutumn) \<and>
   touchesOnly autumnArrival (rows dbAutumn) \<and>
   nightsPositiveInteger (rows dbAutumn) \<and> 1 \<le> numberOfNights autumnArrival \<and>
   fst (createBooking easternHost autumnArrival dbAutumn) =
     Inr (Response 400 (Text UNIT_OCCUPIED))"
proof -
  have g: "\<not> guestAlreadyBooked autumnArrival (rows dbAutumn)"
    by (simp add: guestAlreadyBooked_def dbAutumn_rows autumnArrival_def)
  have t: "touchesOnly autumnArrival (rows dbAutumn)"
    by (simp add: touchesOnly_def dbAutumn_rows autumnArrival_def checkOutDate_def
          msPerDay_def)
  have n: "nightsPositiveInteger (rows dbAutumn)" "1 \<le> numberOfNights autumnArrival"
    by (simp_all add: nightsPositiveInteger_def dbAutumn_rows autumnArrival_def)
  have c: "addNights easternHost (20761 * msPerDay) 2 = Some (20763 * msPerDay)"
    by (simp add: addNights_def setDate_getDate easternHost_def TimeClip_def
          msPerDay_def msPerHour_def maxTime_def)
  have "evaluateNewBooking_spec easternHost autumnArrival (rows dbAutumn) =
      \<lparr>result = False, reason = UNIT_OCCUPIED\<rparr>"
    by (simp add: evaluateNewBooking_spec_def sameGuestSameUnit_def guestAlreadyBooked_def
          exactCheckInCollision_def intervalOverlap_def computedCheckOut_def dbAutumn_rows
          autumnArrival_def autumn_checkout c)
       (simp add: msPerDay_def msPerHour_def)
  then have "fst (createBooking easternHost autumnArrival dbAutumn) =
     Inr (Response 400 (Text UNIT_OCCUPIED))"
    by (simp add: createBooking_fst)
  with g t n show ?thesis by blast
qed

section \<open>Check 3 and check 4\<close>

lemma check2_without3:
  "fst (isBookingPossible_without3 h c s) =
     (if sameGuestSameUnit c (rows s) then \<lparr>result = False, reason = GUEST_UNIT_DUPLICATE\<rparr>
      else if guestAlreadyBooked c (rows s)
        then \<lparr>result = False, reason = GUEST_ALREADY_BOOKED\<rparr>
      else if intervalOverlap h c (rows s) then \<lparr>result = False, reason = UNIT_OCCUPIED\<rparr>
      else \<lparr>result = True, reason = ''OK''\<rparr>)"
  by (simp add: isBookingPossible_without3_def findMany_def Let_def
        check1_query check2_query check4_query del: length_greater_0_conv)

lemma collision_is_overlap:
  assumes "steadyHost h" and "nightsAtLeastOne rs" and "1 \<le> numberOfNights c"
    and "checkoutsValid h rs" and "computedCheckOut h c \<noteq> None"
    and "exactCheckInCollision c rs"
  shows "intervalOverlap h c rs"
proof -
  from assms(6) obtain r where r: "r \<in> set rs" "unitID r = unitID c"
    "checkInDate r = checkInDate c"
    by (auto simp: exactCheckInCollision_def)
  from assms(5) obtain yc where yc: "addNights h (checkInDate c) (numberOfNights c) = Some yc"
    by (auto simp: computedCheckOut_def)
  from assms(4) r(1) obtain yr where
    yr: "addNights h (checkInDate r) (numberOfNights r) = Some yr"
    by (auto simp: checkoutsValid_def computedCheckOut_def)
  have "1 \<le> numberOfNights r"
    using assms(2) r(1) by (simp add: nightsAtLeastOne_def)
  with assms(1) have "checkInDate r < yr" using yr by (rule steady_later)
  moreover have "checkInDate c < yc" using assms(1,3) yc by (rule steady_later)
  ultimately show ?thesis
    using r yc yr by (auto simp: intervalOverlap_def computedCheckOut_def)
qed

lemma dbHuge_checkout:
  "computedCheckOut utcHost
     \<lparr>guestName = ''GuestA'', unitID = ''1'', checkInDate = 0, numberOfNights = 200000000,
      bookingId = 1\<rparr> = None"
  by (simp add: computedCheckOut_def addNights_utc TimeClip_def msPerDay_def maxTime_def)

section \<open>Preservation of the data model\<close>

lemma accepted_checks:
  assumes "result (evaluateNewBooking_spec h c rs)"
  shows "\<not> sameGuestSameUnit c rs" "\<not> guestAlreadyBooked c rs"
    "\<not> exactCheckInCollision c rs" "\<not> intervalOverlap h c rs"
  using assms by (auto simp add: evaluateNewBooking_spec_def split: if_splits)

lemma stored_fields:
  "checkOutDate \<lparr>guestName = guestName c, unitID = unitID c, checkInDate = checkInDate c,
              numberOfNights = numberOfNights c, bookingId = k\<rparr> = checkOutDate c"
  "overlaps \<lparr>guestName = guestName c, unitID = unitID c, checkInDate = checkInDate c,
              numberOfNights = numberOfNights c, bookingId = k\<rparr> r = overlaps c r"
  "overlaps r \<lparr>guestName = guestName c, unitID = unitID c, checkInDate = checkInDate c,
              numberOfNights = numberOfNights c, bookingId = k\<rparr> = overlaps c r"
  by (auto simp add: overlaps_def checkOutDate_def)

lemma overlap_found:
  assumes "fixedOffset h" and "numberOfNights c \<in> \<int>" and "numberOfNights r \<in> \<int>"
    and "\<bar>checkOutDate c\<bar> \<le> of_int maxTime" and "\<bar>checkOutDate r\<bar> \<le> of_int maxTime"
    and "r \<in> set rs" and "unitID r = unitID c" and "\<not> intervalOverlap h c rs"
  shows "\<not> overlaps c r"
proof -
  have "\<not> (before (Some (checkInDate r)) (computedCheckOut h c) \<and>
           before (Some (checkInDate c)) (computedCheckOut h r))"
    using assms(6,7,8) by (auto simp add: intervalOverlap_def)
  then show ?thesis
    unfolding before_computed [OF assms(1,2,4)] before_computed [OF assms(1,3,5)]
    by (auto simp add: overlaps_def)
qed

lemma create_keeps_noOverlap:
  assumes "fixedOffset h" and "wholeNights (rows s)" and "datesInRange (rows s)"
    and "datesInRange (rows (snd (createBooking h c s)))" and "noOverlap (rows s)"
  shows "noOverlap (rows (snd (createBooking h c s)))"
proof (cases "result (evaluateNewBooking_spec h c (rows s)) \<and> isWhole (numberOfNights c)")
  case False
  with assms(5) show ?thesis by (auto simp add: createBooking_rows)
next
  case True
  let ?n = "\<lparr>guestName = guestName c, unitID = unitID c, checkInDate = checkInDate c,
              numberOfNights = numberOfNights c, bookingId = nextId s\<rparr>"
  have rows': "rows (snd (createBooking h c s)) = rows s @ [?n]"
    using True by (simp add: createBooking_rows)
  have wc: "numberOfNights c \<in> \<int>" using True by (simp add: isWhole_iff)
  have rc: "\<bar>checkOutDate c\<bar> \<le> of_int maxTime"
    using assms(4) by (simp add: rows' datesInRange_def stored_fields)
  have free: "\<not> overlaps c r" if "r \<in> set (rows s)" "unitID r = unitID c" for r
  proof -
    have wr: "numberOfNights r \<in> \<int>" and rr: "\<bar>checkOutDate r\<bar> \<le> of_int maxTime"
      using assms(2,3) that(1) by (simp_all add: wholeNights_def datesInRange_def)
    have "\<not> intervalOverlap h c (rows s)"
      using accepted_checks(4) [of h c "rows s"] True by simp
    with assms(1) wc wr rc rr that show ?thesis
      by (rule overlap_found)
  qed
  have "\<not> overlaps a b"
    if "a \<in> set (rows s @ [?n])" "b \<in> set (rows s @ [?n])" "a \<noteq> b" "unitID a = unitID b"
    for a b
  proof (cases "a = ?n")
    case an: True
    with that have "b \<in> set (rows s)" "unitID b = unitID c" by auto
    then show ?thesis using free an by (simp add: stored_fields)
  next
    case an: False
    show ?thesis
    proof (cases "b = ?n")
      case True
      with that an have "a \<in> set (rows s)" "unitID a = unitID c" by auto
      then show ?thesis using free True by (simp add: stored_fields)
    next
      case False
      with an that assms(5) show ?thesis by (auto simp add: noOverlap_def)
    qed
  qed
  then show ?thesis
    by (simp add: rows' noOverlap_def del: set_append)
qed

lemma create_keeps_uniqueIds:
  assumes "uniqueIds s"
  shows "uniqueIds (snd (createBooking h c s))"
  using assms
  by (auto simp add: uniqueIds_def createBooking_rows createBooking_nextId)

lemma checkOutDate_setNights:
  "checkOutDate (b\<lparr>numberOfNights := numberOfNights b + x\<rparr>) = proposedCheckout b x"
  by (simp add: checkOutDate_def proposedCheckout_def algebra_simps)

lemma extension_keeps_noOverlap:
  assumes h: "fixedOffset h"
    and d: "distinct (map bookingId rs)"
    and f: "find (\<lambda>r. bookingId r = i) rs = Some b"
    and p: "nightsPositiveInteger rs"
    and r: "datesInRange rs"
    and r': "datesInRange (map (setNights i (numberOfNights b + x)) rs)"
    and inv: "noOverlap rs"
    and nc: "\<not> computedConflict h b x rs"
    and w: "isWhole (numberOfNights b + x)"
  shows "noOverlap (map (setNights i (numberOfNights b + x)) rs)"
proof -
  let ?m = "numberOfNights b + x"
  let ?b' = "b\<lparr>numberOfNights := ?m\<rparr>"
  have bi: "bookingId b = i" and bin: "b \<in> set rs"
    using find_id [OF f] by simp_all
  have wn: "wholeNights rs"
    using p by (simp add: nightsPositiveInteger_def wholeNights_def)
  have wb: "numberOfNights b \<in> \<int>"
    using wn bin by (simp add: wholeNights_def)
  have "?m - numberOfNights b \<in> \<int>"
    using w wb unfolding isWhole_iff by (rule Ints_diff)
  then have wx: "x \<in> \<int>" by simp
  have "setNights i ?m b \<in> set (map (setNights i ?m) rs)"
    using bin by simp
  then have "\<bar>checkOutDate (setNights i ?m b)\<bar> \<le> of_int maxTime"
    using r' by (simp only: datesInRange_def)
  then have rp: "\<bar>proposedCheckout b x\<bar> \<le> of_int maxTime"
    by (simp add: setNights_def bi checkOutDate_setNights)
  have ne: "\<not> extensionConflict b x rs"
    using nc conflict_bridge [OF h wn r bin wx rp] by simp
  have key: "\<not> (of_int (checkInDate b) < checkOutDate other \<and>
                 of_int (checkInDate other) < proposedCheckout b x)"
    if o: "other \<in> set rs" "bookingId other \<noteq> i" "unitID other = unitID b" for other
  proof
    assume a: "of_int (checkInDate b) < checkOutDate other \<and>
               of_int (checkInDate other) < proposedCheckout b x"
    have "1 \<le> numberOfNights other"
      using p o(1) by (simp add: nightsPositiveInteger_def)
    then have oo: "of_int (checkInDate other) < checkOutDate other"
      by (rule checkIn_before_checkOut)
    have "\<not> checkOutDate b < checkOutDate other"
      using ne o a bi by (auto simp add: extensionConflict_def)
    with oo have "of_int (checkInDate other) < checkOutDate b" by simp
    moreover have "other \<noteq> b" using o(2) bi by auto
    ultimately show False
      using inv o(1,3) bin a by (auto simp add: noOverlap_def overlaps_def)
  qed
  have "\<not> overlaps (setNights i ?m a) (setNights i ?m c)"
    if ac: "a \<in> set rs" "c \<in> set rs" "setNights i ?m a \<noteq> setNights i ?m c"
      "unitID a = unitID c"
    for a c
  proof (cases "bookingId a = i")
    case ai: True
    then have ab: "a = b" using find_unique_row [OF d f ac(1)] by simp
    show ?thesis
    proof (cases "bookingId c = i")
      case True
      then have "c = b" using find_unique_row [OF d f ac(2)] by simp
      with ab ac(3) show ?thesis by simp
    next
      case False
      with key [OF ac(2) False] ac(4) ab bi show ?thesis
        by (simp add: setNights_def overlaps_def checkOutDate_setNights)
    qed
  next
    case ai: False
    show ?thesis
    proof (cases "bookingId c = i")
      case True
      then have "c = b" using find_unique_row [OF d f ac(2)] by simp
      with key [OF ac(1) ai] ac(4) bi ai show ?thesis
        by (auto simp add: setNights_def overlaps_def checkOutDate_setNights)
    next
      case False
      with ai ac inv show ?thesis
        by (auto simp add: setNights_def noOverlap_def)
    qed
  qed
  then show ?thesis
    by (simp add: noOverlap_def setNights_fields)
qed

lemma extend_keeps_noOverlap:
  assumes "fixedOffset h" and "uniqueIds s" and "nightsPositiveInteger (rows s)"
    and "datesInRange (rows s)" and "datesInRange (rows (snd (extendBooking h i e s)))"
    and "noOverlap (rows s)"
  shows "noOverlap (rows (snd (extendBooking h i e s)))"
  using extendBooking_rows_cases [of h i e s]
proof
  assume "rows (snd (extendBooking h i e s)) = rows s"
  with assms(6) show ?thesis by simp
next
  assume "\<exists>b x. e = Num x \<and> 0 < x \<and> find (\<lambda>r. bookingId r = i) (rows s) = Some b \<and>
      \<not> computedConflict h b x (rows s) \<and> isWhole (numberOfNights b + x) \<and>
      fst (extendBooking h i e s) =
        Inr (Response 200 (Row (b\<lparr>numberOfNights := numberOfNights b + x\<rparr>))) \<and>
      rows (snd (extendBooking h i e s)) = map (setNights i (numberOfNights b + x)) (rows s)"
  then obtain b x where
    f: "find (\<lambda>r. bookingId r = i) (rows s) = Some b" and
    nc: "\<not> computedConflict h b x (rows s)" and
    w: "isWhole (numberOfNights b + x)" and
    r: "rows (snd (extendBooking h i e s)) = map (setNights i (numberOfNights b + x)) (rows s)"
    by blast
  have d: "distinct (map bookingId (rows s))"
    using assms(2) by (simp add: uniqueIds_def)
  have r': "datesInRange (map (setNights i (numberOfNights b + x)) (rows s))"
    using assms(5) by (simp only: r)
  show ?thesis
    unfolding r
    by (rule extension_keeps_noOverlap [OF assms(1) d f assms(3,4) r' assms(6) nc w])
qed

lemma uniqueIds_setNights:
  assumes "uniqueIds s" and "rows t = map (setNights i n) (rows s)" and "nextId t = nextId s"
  shows "uniqueIds t"
proof -
  have "map bookingId (rows t) = map bookingId (rows s)"
    by (simp add: assms(2) setNights_fields)
  moreover have "\<forall>r \<in> set (rows t). bookingId r < nextId t"
    using assms by (auto simp add: uniqueIds_def setNights_fields)
  ultimately show ?thesis
    using assms(1) by (simp add: uniqueIds_def)
qed

lemma extend_keeps_uniqueIds:
  assumes "uniqueIds s"
  shows "uniqueIds (snd (extendBooking h i e s))"
  using extendBooking_rows_cases [of h i e s]
proof
  assume "rows (snd (extendBooking h i e s)) = rows s"
  with assms show ?thesis by (simp add: uniqueIds_def extendBooking_nextId)
next
  assume "\<exists>b x. e = Num x \<and> 0 < x \<and> find (\<lambda>r. bookingId r = i) (rows s) = Some b \<and>
      \<not> computedConflict h b x (rows s) \<and> isWhole (numberOfNights b + x) \<and>
      fst (extendBooking h i e s) =
        Inr (Response 200 (Row (b\<lparr>numberOfNights := numberOfNights b + x\<rparr>))) \<and>
      rows (snd (extendBooking h i e s)) = map (setNights i (numberOfNights b + x)) (rows s)"
  then obtain n where
    "rows (snd (extendBooking h i e s)) = map (setNights i n) (rows s)"
    by blast
  with assms show ?thesis
    using extendBooking_nextId [of h i e s] by (rule uniqueIds_setNights)
qed


lemma followUp_accepted:
  "rows (snd (createBooking utcHost followUp dbBlocked)) =
     [\<lparr>guestName = ''GuestA'', unitID = ''1'', checkInDate = 0, numberOfNights = 5,
       bookingId = 1\<rparr>,
      \<lparr>guestName = ''GuestC'', unitID = ''1'', checkInDate = 432000000, numberOfNights = 2,
       bookingId = 2\<rparr>,
      \<lparr>guestName = ''GuestD'', unitID = ''1'', checkInDate = 604800000, numberOfNights = 3,
       bookingId = 3\<rparr>]"
  by (simp add: createBooking_rows dbBlocked_rows dbBlocked_nextId
        evaluateNewBooking_spec_def sameGuestSameUnit_def guestAlreadyBooked_def
        exactCheckInCollision_def intervalOverlap_def computedCheckOut_def
        addNights_utc TimeClip_def maxTime_def msPerDay_def followUp_def isWhole_def)

lemma extend_dbTouching:
  "fst (extendBooking utcHost 1 (Num 1) dbTouching) =
     Inr (Response 200 (Row \<lparr>guestName = ''GuestA'', unitID = ''1'', checkInDate = 0,
                              numberOfNights = 6, bookingId = 1\<rparr>))"
  "rows (snd (extendBooking utcHost 1 (Num 1) dbTouching)) =
     [\<lparr>guestName = ''GuestA'', unitID = ''1'', checkInDate = 0, numberOfNights = 6,
       bookingId = 1\<rparr>,
      \<lparr>guestName = ''GuestB'', unitID = ''1'', checkInDate = 432000000, numberOfNights = 0,
       bookingId = 2\<rparr>]"
proof -
  let ?a = "\<lparr>guestName = ''GuestA'', unitID = ''1'', checkInDate = 0, numberOfNights = 5,
       bookingId = 1\<rparr>"
  have p: "(0::rat) < 1" by simp
  have f: "find (\<lambda>r. bookingId r = 1) (rows dbTouching) = Some ?a"
    by (simp add: dbTouching_rows)
  have c: "\<not> computedConflict utcHost ?a 1 (rows dbTouching)"
    by (simp add: computedConflict_def computedProposal_def computedCheckOut_def
          addNights_utc TimeClip_def maxTime_def msPerDay_def dbTouching_rows)
  show "fst (extendBooking utcHost 1 (Num 1) dbTouching) =
     Inr (Response 200 (Row \<lparr>guestName = ''GuestA'', unitID = ''1'', checkInDate = 0,
                              numberOfNights = 6, bookingId = 1\<rparr>))"
    using c by (simp add: extendBooking_found [OF p f] isWhole_def)
  show "rows (snd (extendBooking utcHost 1 (Num 1) dbTouching)) =
     [\<lparr>guestName = ''GuestA'', unitID = ''1'', checkInDate = 0, numberOfNights = 6,
       bookingId = 1\<rparr>,
      \<lparr>guestName = ''GuestB'', unitID = ''1'', checkInDate = 432000000, numberOfNights = 0,
       bookingId = 2\<rparr>]"
    using c by (simp add: extendBooking_found [OF p f] isWhole_def dbTouching_rows
          setNights_def)
qed

lemma followUp_response:
  "fst (createBooking utcHost followUp dbBlocked) =
     Inr (Response 200 (Row \<lparr>guestName = ''GuestD'', unitID = ''1'', checkInDate = 604800000,
                              numberOfNights = 3, bookingId = 3\<rparr>))"
  by (simp add: createBooking_fst dbBlocked_rows dbBlocked_nextId
        evaluateNewBooking_spec_def sameGuestSameUnit_def guestAlreadyBooked_def
        exactCheckInCollision_def intervalOverlap_def computedCheckOut_def
        addNights_utc TimeClip_def maxTime_def msPerDay_def followUp_def isWhole_def)



section \<open>The order of the checks\<close>

text \<open>
  C2. \<^verbatim>\<open>isBookingPossible\<close> runs the four checks in the order same guest and same
  unit, guest already booked, exact check-in collision, interval overlap, and the first
  check that fails gives the reason. In particular, when the guest's existing booking is
  on the candidate's unit, so that checks 1 and 2 would both fire, the reason is
  \<open>GUEST_UNIT_DUPLICATE\<close> and not \<open>GUEST_ALREADY_BOOKED\<close>.
\<close>

theorem check_order_fixes_reason:
  "fst (isBookingPossible h c s) = evaluateNewBooking_spec h c (rows s) \<and>
   (sameGuestSameUnit c (rows s) \<and> guestAlreadyBooked c (rows s) \<longrightarrow>
      fst (isBookingPossible h c s) = \<lparr>result = False, reason = GUEST_UNIT_DUPLICATE\<rparr> \<and>
      reason (fst (isBookingPossible h c s)) \<noteq> GUEST_ALREADY_BOOKED)"
  by (simp add: isBookingPossible_fst evaluateNewBooking_spec_def reasons_distinct)

theorem check_order_fixes_reason_witness:
  "sameGuestSameUnit GUEST_A_UNIT_1 (rows dbGuestA) \<and>
   guestAlreadyBooked GUEST_A_UNIT_1 (rows dbGuestA) \<and>
   fst (isBookingPossible utcHost GUEST_A_UNIT_1 dbGuestA) =
     \<lparr>result = False, reason = GUEST_UNIT_DUPLICATE\<rparr> \<and>
   reason (fst (isBookingPossible utcHost GUEST_A_UNIT_1 dbGuestA)) \<noteq> GUEST_ALREADY_BOOKED"
  using check_order_fixes_reason [of utcHost GUEST_A_UNIT_1 dbGuestA]
  by (simp add: dbGuestA_rows sameGuestSameUnit_def guestAlreadyBooked_def
        GUEST_A_UNIT_1_def isBookingPossible_fst reasons_distinct)

text \<open>
  C5, as the specification states it: \<^verbatim>\<open>isBookingPossible\<close> never gives the reason
  \<open>GUEST_UNIT_DUPLICATE\<close>. It does, for the second request of the test
  ``Same guest same unit booking''.
\<close>

theorem duplicate_reason_reached:
  "reason (fst (isBookingPossible utcHost GUEST_A_UNIT_1 dbGuestA)) = GUEST_UNIT_DUPLICATE"
  by (simp add: isBookingPossible_fst evaluateNewBooking_spec_def dbGuestA_rows
        sameGuestSameUnit_def GUEST_A_UNIT_1_def)

text \<open>
  C5, amended: check 1 runs before check 2, so the reason is \<open>GUEST_UNIT_DUPLICATE\<close>
  exactly when some existing booking has the candidate's guest and unit, and
  \<open>GUEST_ALREADY_BOOKED\<close> exactly when the guest holds a booking but none on the
  candidate's unit.
\<close>

theorem duplicate_reason_iff:
  "(reason (fst (isBookingPossible h c s)) = GUEST_UNIT_DUPLICATE \<longleftrightarrow>
      sameGuestSameUnit c (rows s)) \<and>
   (reason (fst (isBookingPossible h c s)) = GUEST_ALREADY_BOOKED \<longleftrightarrow>
      guestAlreadyBooked c (rows s) \<and> \<not> sameGuestSameUnit c (rows s))"
  using reasons_distinct
  by (auto simp add: isBookingPossible_fst evaluateNewBooking_spec_def)

theorem duplicate_reason_iff_witness:
  "sameGuestSameUnit GUEST_A_UNIT_1 (rows dbGuestA) \<and>
   reason (fst (isBookingPossible utcHost GUEST_A_UNIT_1 dbGuestA)) = GUEST_UNIT_DUPLICATE \<and>
   guestAlreadyBooked GUEST_A_UNIT_2 (rows dbGuestA) \<and>
   \<not> sameGuestSameUnit GUEST_A_UNIT_2 (rows dbGuestA) \<and>
   reason (fst (isBookingPossible utcHost GUEST_A_UNIT_2 dbGuestA)) = GUEST_ALREADY_BOOKED"
  using duplicate_reason_iff [of utcHost GUEST_A_UNIT_1 dbGuestA]
    duplicate_reason_iff [of utcHost GUEST_A_UNIT_2 dbGuestA]
  by (simp add: dbGuestA_rows sameGuestSameUnit_def guestAlreadyBooked_def
        GUEST_A_UNIT_1_def GUEST_A_UNIT_2_def)

section \<open>Validation of the extra nights\<close>

text \<open>
  C8. \<^verbatim>\<open>extendBooking\<close> answers \<open>INVALID_EXTRA_NIGHTS\<close> exactly when the parsed
  \<^verbatim>\<open>extraNights\<close> is not a number, is zero, or is negative. On that path the store,
  with its record of client calls, is returned as it was: no booking was read or
  written. On every other path the first call is the read of the booking.
\<close>

theorem invalid_extra_nights:
  "(fst (extendBooking h i e s) = Inr INVALID_EXTRA_NIGHTS \<longleftrightarrow>
      e = NaN \<or> (\<exists>x. e = Num x \<and> (x = 0 \<or> x < 0))) \<and>
   (fst (extendBooking h i e s) = Inr INVALID_EXTRA_NIGHTS \<longrightarrow>
      snd (extendBooking h i e s) = s \<and> calls (snd (extendBooking h i e s)) = calls s) \<and>
   (fst (extendBooking h i e s) \<noteq> Inr INVALID_EXTRA_NIGHTS \<longrightarrow>
      (\<exists>cs. calls (snd (extendBooking h i e s)) = calls s @ FindUnique # cs))"
proof (cases e)
  case NaN
  then show ?thesis by (simp add: extendBooking_invalid)
next
  case (Num x)
  show ?thesis
  proof (cases "x \<le> 0")
    case True
    with Num have "extendBooking h i e s = (Inr INVALID_EXTRA_NIGHTS, s)"
      by (simp add: extendBooking_invalid)
    with True Num show ?thesis by auto
  next
    case False
    then have pos: "0 < x" by simp
    show ?thesis
    proof (cases "find (\<lambda>r. bookingId r = i) (rows s)")
      case None
      with pos Num False show ?thesis
        by (simp add: extendBooking_not_found responses_distinct)
    next
      case (Some b)
      with pos Num False show ?thesis
        by (simp add: extendBooking_found responses_distinct)
    qed
  qed
qed

theorem invalid_extra_nights_witness:
  "fst (extendBooking utcHost 1 (Num 0) dbGuestA) = Inr INVALID_EXTRA_NIGHTS \<and>
   snd (extendBooking utcHost 1 (Num 0) dbGuestA) = dbGuestA \<and>
   fst (extendBooking utcHost 1 NaN dbGuestA) = Inr INVALID_EXTRA_NIGHTS \<and>
   fst (extendBooking utcHost 1 (Num (- 3)) dbGuestA) = Inr INVALID_EXTRA_NIGHTS \<and>
   fst (extendBooking utcHost 1 (Num 2) dbGuestA) \<noteq> Inr INVALID_EXTRA_NIGHTS \<and>
   (\<exists>cs. calls (snd (extendBooking utcHost 1 (Num 2) dbGuestA)) =
      calls dbGuestA @ FindUnique # cs)"
  using invalid_extra_nights [of utcHost 1 "Num 0" dbGuestA]
    invalid_extra_nights [of utcHost 1 NaN dbGuestA]
    invalid_extra_nights [of utcHost 1 "Num (- 3)" dbGuestA]
    invalid_extra_nights [of utcHost 1 "Num 2" dbGuestA]
  by simp

section \<open>What an accepted extension changes\<close>



section \<open>The conflict decision of an extension\<close>

text \<open>
  C3, as the specification states it: for valid extra nights and an existing booking the
  answer is \<open>EXTENSION_CONFLICT\<close> exactly when another booking on the unit checks in
  before \<open>proposedCheckout = currentCheckout + extraNights\<close> and ends after the current
  checkout. \<open>GuestA\<close> holds unit 1 for days 0 to 5 and \<open>GuestC\<close> from day 5 to day 7; for
  half an extra night the proposed checkout is day 5.5, after \<open>GuestC\<close>'s check-in, yet
  \<^verbatim>\<open>setDate\<close> drops the half day, the handler scans up to day 5 and finds no conflict.
\<close>

theorem half_night_extension_unopposed:
  "find (\<lambda>r. bookingId r = 1) (rows dbBlocked) =
     Some \<lparr>guestName = ''GuestA'', unitID = ''1'', checkInDate = 0, numberOfNights = 5,
           bookingId = 1\<rparr> \<and>
   extensionConflict
     \<lparr>guestName = ''GuestA'', unitID = ''1'', checkInDate = 0, numberOfNights = 5,
      bookingId = 1\<rparr> (1 / 2) (rows dbBlocked) \<and>
   fst (extendBooking utcHost 1 (Num (1 / 2)) dbBlocked) \<noteq> Inr EXTENSION_CONFLICT"
proof -
  have "extensionConflict
     \<lparr>guestName = ''GuestA'', unitID = ''1'', checkInDate = 0, numberOfNights = 5,
      bookingId = 1\<rparr> (1 / 2) (rows dbBlocked)"
    by (simp add: extensionConflict_def proposedCheckout_def checkOutDate_def msPerDay_def
          dbBlocked_rows)
  then show ?thesis
    by (simp add: dbBlocked_find extend_dbBlocked)
qed

text \<open>
  C3, amended: on a host whose local time keeps one offset from UTC, for whole extra
  nights greater than zero, an existing booking, whole night counts, and checkouts
  (those of the store and the proposed one) that are valid dates, \<^verbatim>\<open>extendBooking\<close>
  answers \<open>EXTENSION_CONFLICT\<close> exactly when some other booking on the same unit, the
  booking itself excluded, checks in before the proposed checkout and satisfies
  \<open>currentCheckout < otherCheckout\<close> and \<open>otherCheckIn < proposedCheckout\<close>. In
  particular a one-night extension of a booking of 5 nights is rejected when another
  booking on the unit starts at its checkout, day 5, for 2 nights.
\<close>

theorem extension_conflict_iff:
  assumes "fixedOffset h" and "0 < x" and "x \<in> \<int>"
    and "find (\<lambda>r. bookingId r = i) (rows s) = Some b"
    and "wholeNights (rows s)" and "datesInRange (rows s)"
    and "\<bar>proposedCheckout b x\<bar> \<le> of_int maxTime"
  shows "(fst (extendBooking h i (Num x) s) = Inr EXTENSION_CONFLICT \<longleftrightarrow>
            extensionConflict b x (rows s)) \<and>
         fst (extendBooking utcHost 1 (Num 1) dbBlocked) = Inr EXTENSION_CONFLICT"
proof -
  have b: "b \<in> set (rows s)" using find_id [OF assms(4)] by simp
  have "computedConflict h b x (rows s) \<longleftrightarrow> extensionConflict b x (rows s)"
    using assms(1,5,6) b assms(3,7) by (rule conflict_bridge)
  then show ?thesis
    by (simp add: extendBooking_found [OF assms(2,4)] responses_distinct extend_dbBlocked)
qed

theorem extension_conflict_iff_witness:
  "fixedOffset utcHost \<and> wholeNights (rows dbBlocked) \<and> datesInRange (rows dbBlocked) \<and>
   find (\<lambda>r. bookingId r = 1) (rows dbBlocked) =
     Some \<lparr>guestName = ''GuestA'', unitID = ''1'', checkInDate = 0, numberOfNights = 5,
           bookingId = 1\<rparr> \<and>
   extensionConflict
     \<lparr>guestName = ''GuestA'', unitID = ''1'', checkInDate = 0, numberOfNights = 5,
      bookingId = 1\<rparr> 1 (rows dbBlocked) \<and>
   fst (extendBooking utcHost 1 (Num 1) dbBlocked) = Inr EXTENSION_CONFLICT \<and>
   \<not> extensionConflict
     \<lparr>guestName = ''GuestC'', unitID = ''1'', checkInDate = 432000000, numberOfNights = 2,
      bookingId = 2\<rparr> 3 (rows dbBlocked) \<and>
   fst (extendBooking utcHost 2 (Num 3) dbBlocked) \<noteq> Inr EXTENSION_CONFLICT"
proof -
  let ?a = "\<lparr>guestName = ''GuestA'', unitID = ''1'', checkInDate = 0, numberOfNights = 5,
      bookingId = 1\<rparr>"
  let ?c = "\<lparr>guestName = ''GuestC'', unitID = ''1'', checkInDate = 432000000,
      numberOfNights = 2, bookingId = 2\<rparr>"
  have w: "wholeNights (rows dbBlocked)"
    by (simp add: wholeNights_def dbBlocked_rows)
  have d: "datesInRange (rows dbBlocked)"
    by (simp add: datesInRange_def dbBlocked_rows checkOutDate_def msPerDay_def maxTime_def)
  have p1: "(0::rat) < 1" "(1::rat) \<in> \<int>" and p3: "(0::rat) < 3" "(3::rat) \<in> \<int>"
    by simp_all
  have r1: "\<bar>proposedCheckout ?a 1\<bar> \<le> of_int maxTime"
    and r3: "\<bar>proposedCheckout ?c 3\<bar> \<le> of_int maxTime"
    by (simp_all add: proposedCheckout_def checkOutDate_def msPerDay_def maxTime_def)
  have c1: "extensionConflict ?a 1 (rows dbBlocked)"
    by (simp add: extensionConflict_def proposedCheckout_def checkOutDate_def msPerDay_def
          dbBlocked_rows)
  have c3: "\<not> extensionConflict ?c 3 (rows dbBlocked)"
    by (simp add: extensionConflict_def proposedCheckout_def checkOutDate_def msPerDay_def
          dbBlocked_rows)
  from extension_conflict_iff [OF fixedOffset_utcHost p1 dbBlocked_find(1) w d r1]
    extension_conflict_iff [OF fixedOffset_utcHost p3 dbBlocked_find(2) w d r3]
    fixedOffset_utcHost w d dbBlocked_find(1) c1 c3
  show ?thesis by blast
qed

section \<open>Back-to-back bookings\<close>




section \<open>Check 3 is a case of check 4\<close>

text \<open>
  C6, as the specification states it: with \<open>numberOfNights \<ge> 1\<close> throughout, the check
  without its third query gives the same outcome. A booking of 200000000 nights from
  day 0 has a checkout beyond the last valid date; a candidate for the same unit and
  day is rejected by check 3, but the comparison of check 4 with an Invalid Date is
  false, and without check 3 the candidate is accepted.
\<close>

theorem check3_needed_beyond_range:
  "nightsAtLeastOne (rows dbHuge) \<and> 1 \<le> numberOfNights fiveNights \<and>
   fst (isBookingPossible utcHost fiveNights dbHuge) =
     \<lparr>result = False, reason = UNIT_OCCUPIED\<rparr> \<and>
   fst (isBookingPossible_without3 utcHost fiveNights dbHuge) =
     \<lparr>result = True, reason = ''OK''\<rparr>"
proof -
  have n: "nightsAtLeastOne (rows dbHuge)" "1 \<le> numberOfNights fiveNights"
    by (simp_all add: nightsAtLeastOne_def dbHuge_def fiveNights_def)
  have a: "fst (isBookingPossible utcHost fiveNights dbHuge) =
     \<lparr>result = False, reason = UNIT_OCCUPIED\<rparr>"
    by (simp add: isBookingPossible_fst evaluateNewBooking_spec_def sameGuestSameUnit_def
          guestAlreadyBooked_def exactCheckInCollision_def dbHuge_def fiveNights_def)
  have "\<not> intervalOverlap utcHost fiveNights (rows dbHuge)"
    using dbHuge_checkout by (simp add: intervalOverlap_def dbHuge_def)
  then have b: "fst (isBookingPossible_without3 utcHost fiveNights dbHuge) =
     \<lparr>result = True, reason = ''OK''\<rparr>"
    by (simp add: check2_without3 sameGuestSameUnit_def guestAlreadyBooked_def)
       (simp add: dbHuge_def fiveNights_def)
  from n a b show ?thesis by blast
qed

text \<open>
  C6, amended: on a host whose offsets from UTC differ by less than half a day, in a
  store whose bookings all have a whole \<open>numberOfNights \<ge> 1\<close> and a checkout that is a
  valid date, and for a candidate of which the same holds, the feasibility check
  without check 3 returns the same outcome and the same reason as the check with it:
  where check 3 would reject, check 4 rejects with the same reason \<open>UNIT_OCCUPIED\<close>.
\<close>

theorem check3_redundant:
  assumes "steadyHost h"
    and "nightsPositiveInteger (rows s)"
    and "numberOfNights c \<in> \<int>" and "1 \<le> numberOfNights c"
    and "checkoutsValid h (rows s)" and "computedCheckOut h c \<noteq> None"
  shows "fst (isBookingPossible_without3 h c s) = fst (isBookingPossible h c s) \<and>
         (exactCheckInCollision c (rows s) \<and> \<not> guestAlreadyBooked c (rows s) \<longrightarrow>
            fst (isBookingPossible_without3 h c s) =
              \<lparr>result = False, reason = UNIT_OCCUPIED\<rparr>)"
proof -
  have n: "nightsAtLeastOne (rows s)"
    using assms(2) by (simp add: nightsPositiveInteger_def nightsAtLeastOne_def)
  show ?thesis
    using collision_is_overlap [OF assms(1) n assms(4,5,6)]
    by (auto simp add: check2_without3 isBookingPossible_fst evaluateNewBooking_spec_def
          sameGuestSameUnit_def guestAlreadyBooked_def)
qed

theorem check3_redundant_witness:
  "steadyHost easternHost \<and> nightsPositiveInteger (rows dbAutumn) \<and>
   numberOfNights (autumnArrival\<lparr>checkInDate := 20756 * msPerDay\<rparr>) \<in> \<int> \<and>
   1 \<le> numberOfNights (autumnArrival\<lparr>checkInDate := 20756 * msPerDay\<rparr>) \<and>
   checkoutsValid easternHost (rows dbAutumn) \<and>
   computedCheckOut easternHost (autumnArrival\<lparr>checkInDate := 20756 * msPerDay\<rparr>) \<noteq> None \<and>
   exactCheckInCollision (autumnArrival\<lparr>checkInDate := 20756 * msPerDay\<rparr>) (rows dbAutumn) \<and>
   fst (isBookingPossible easternHost (autumnArrival\<lparr>checkInDate := 20756 * msPerDay\<rparr>)
          dbAutumn) = \<lparr>result = False, reason = UNIT_OCCUPIED\<rparr> \<and>
   fst (isBookingPossible_without3 easternHost
          (autumnArrival\<lparr>checkInDate := 20756 * msPerDay\<rparr>) dbAutumn) =
     \<lparr>result = False, reason = UNIT_OCCUPIED\<rparr>"
proof -
  let ?c = "autumnArrival\<lparr>checkInDate := 20756 * msPerDay\<rparr>"
  have h1: "nightsPositiveInteger (rows dbAutumn)"
    by (simp add: nightsPositiveInteger_def dbAutumn_rows)
  have h2: "numberOfNights ?c \<in> \<int>" "1 \<le> numberOfNights ?c"
    by (simp_all add: autumnArrival_def)
  have h3: "checkoutsValid easternHost (rows dbAutumn)"
    by (simp add: checkoutsValid_def dbAutumn_rows computedCheckOut_def autumn_checkout)
  have "addNights easternHost (20756 * msPerDay) 2 = Some (20758 * msPerDay)"
    by (simp add: addNights_def setDate_getDate easternHost_def TimeClip_def
          msPerDay_def msPerHour_def maxTime_def)
  then have h4: "computedCheckOut easternHost ?c \<noteq> None"
    by (simp add: computedCheckOut_def autumnArrival_def)
  have h5: "exactCheckInCollision ?c (rows dbAutumn)"
    by (simp add: exactCheckInCollision_def dbAutumn_rows autumnArrival_def)
  have h6: "\<not> guestAlreadyBooked ?c (rows dbAutumn)"
    by (simp add: guestAlreadyBooked_def dbAutumn_rows autumnArrival_def)
  from check3_redundant [OF steadyHost_eastern h1 h2 h3 h4] steadyHost_eastern
    h1 h2 h3 h4 h5 h6
  show ?thesis by auto
qed

section \<open>The non-overlap invariant\<close>

text \<open>
  C1, as the specification states it: from a store without overlapping bookings on a unit,
  every accepted creation and every accepted extension leads to such a store.
  \<^verbatim>\<open>createBooking\<close> stores \<open>GuestA\<close> on unit 1 from day 0 for 5 nights and then, since it
  never looks at the value of \<open>numberOfNights\<close>, \<open>GuestB\<close> on unit 1 on day 5 for no nights;
  the two do not overlap. The extension of \<open>GuestA\<close> by one night is accepted, because
  \<open>currentCheckout < otherCheckout\<close> is \<open>day 5 < day 5\<close>, and afterwards \<open>GuestB\<close>'s day 5
  lies inside \<open>GuestA\<close>'s days 0 to 6.
\<close>

theorem extension_breaks_no_overlap:
  "uniqueIds dbTouching \<and> noOverlap (rows dbTouching) \<and>
   fst (extendBooking utcHost 1 (Num 1) dbTouching) =
     Inr (Response 200 (Row \<lparr>guestName = ''GuestA'', unitID = ''1'', checkInDate = 0,
                              numberOfNights = 6, bookingId = 1\<rparr>)) \<and>
   \<not> noOverlap (rows (snd (extendBooking utcHost 1 (Num 1) dbTouching)))"
proof -
  have "uniqueIds dbTouching"
    by (simp add: uniqueIds_def dbTouching_rows dbTouching_nextId)
  moreover have "noOverlap (rows dbTouching)"
    by (simp add: noOverlap_def overlaps_def checkOutDate_def msPerDay_def dbTouching_rows)
  moreover have "\<not> noOverlap (rows (snd (extendBooking utcHost 1 (Num 1) dbTouching)))"
    by (simp add: noOverlap_def overlaps_def checkOutDate_def msPerDay_def
          extend_dbTouching)
  ultimately show ?thesis
    by (simp add: extend_dbTouching)
qed

text \<open>
  C1, amended: take \<open>checkOut = checkIn + numberOfNights\<close> days exactly, a host whose local
  time keeps one offset from UTC, and a store with unique ids in which every
  \<open>numberOfNights\<close> is a whole number of at least 1, every checkout is a valid date, and no
  two distinct bookings on the same unit overlap. Then \<^verbatim>\<open>createBooking\<close> of a candidate
  with a whole \<open>numberOfNights\<close> and \<^verbatim>\<open>extendBooking\<close> by a whole \<open>extraNights\<close>, accepted or
  not, both leave a store with unique ids in which, as long as its checkouts still are
  valid dates, no two distinct bookings on the same unit overlap.
\<close>

theorem no_overlap_preserved:
  assumes "fixedOffset h" and "uniqueIds s" and "nightsPositiveInteger (rows s)"
    and "datesInRange (rows s)" and "noOverlap (rows s)"
    and "numberOfNights c \<in> \<int>" and "x \<in> \<int>"
  shows "(datesInRange (rows (snd (createBooking h c s))) \<longrightarrow>
            noOverlap (rows (snd (createBooking h c s)))) \<and>
         uniqueIds (snd (createBooking h c s)) \<and>
         (datesInRange (rows (snd (extendBooking h i (Num x) s))) \<longrightarrow>
            noOverlap (rows (snd (extendBooking h i (Num x) s)))) \<and>
         uniqueIds (snd (extendBooking h i (Num x) s))"
proof -
  have w: "wholeNights (rows s)"
    using assms(3) by (simp add: nightsPositiveInteger_def wholeNights_def)
  have "noOverlap (rows (snd (createBooking h c s)))"
    if "datesInRange (rows (snd (createBooking h c s)))"
    using assms(1) w assms(4) that assms(5) by (rule create_keeps_noOverlap)
  moreover have "noOverlap (rows (snd (extendBooking h i (Num x) s)))"
    if "datesInRange (rows (snd (extendBooking h i (Num x) s)))"
    using assms(1,2,3,4) that assms(5) by (rule extend_keeps_noOverlap)
  moreover have "uniqueIds (snd (createBooking h c s))"
    using assms(2) by (rule create_keeps_uniqueIds)
  moreover have "uniqueIds (snd (extendBooking h i (Num x) s))"
    using assms(2) by (rule extend_keeps_uniqueIds)
  ultimately show ?thesis by blast
qed

theorem no_overlap_preserved_witness:
  "fixedOffset utcHost \<and> uniqueIds dbBlocked \<and> nightsPositiveInteger (rows dbBlocked) \<and>
   datesInRange (rows dbBlocked) \<and> noOverlap (rows dbBlocked) \<and>
   rows (snd (createBooking utcHost followUp dbBlocked)) =
     [\<lparr>guestName = ''GuestA'', unitID = ''1'', checkInDate = 0, numberOfNights = 5,
       bookingId = 1\<rparr>,
      \<lparr>guestName = ''GuestC'', unitID = ''1'', checkInDate = 432000000, numberOfNights = 2,
       bookingId = 2\<rparr>,
      \<lparr>guestName = ''GuestD'', unitID = ''1'', checkInDate = 604800000, numberOfNights = 3,
       bookingId = 3\<rparr>] \<and>
   datesInRange (rows (snd (createBooking utcHost followUp dbBlocked))) \<and>
   noOverlap (rows (snd (createBooking utcHost followUp dbBlocked))) \<and>
   uniqueIds (snd (createBooking utcHost followUp dbBlocked)) \<and>
   rows (snd (extendBooking utcHost 2 (Num 3) dbBlocked)) =
     [\<lparr>guestName = ''GuestA'', unitID = ''1'', checkInDate = 0, numberOfNights = 5,
       bookingId = 1\<rparr>,
      \<lparr>guestName = ''GuestC'', unitID = ''1'', checkInDate = 432000000, numberOfNights = 5,
       bookingId = 2\<rparr>] \<and>
   datesInRange (rows (snd (extendBooking utcHost 2 (Num 3) dbBlocked))) \<and>
   noOverlap (rows (snd (extendBooking utcHost 2 (Num 3) dbBlocked))) \<and>
   uniqueIds (snd (extendBooking utcHost 2 (Num 3) dbBlocked))"
proof -
  have u: "uniqueIds dbBlocked"
    by (simp add: uniqueIds_def dbBlocked_rows dbBlocked_nextId)
  have p: "nightsPositiveInteger (rows dbBlocked)"
    by (simp add: nightsPositiveInteger_def dbBlocked_rows)
  have d: "datesInRange (rows dbBlocked)"
    by (simp add: datesInRange_def dbBlocked_rows checkOutDate_def msPerDay_def maxTime_def)
  have n: "noOverlap (rows dbBlocked)"
    by (simp add: noOverlap_def overlaps_def checkOutDate_def msPerDay_def dbBlocked_rows)
  have wc: "numberOfNights followUp \<in> \<int>" by (simp add: followUp_def)
  have wx: "(3::rat) \<in> \<int>" by simp
  have dc: "datesInRange (rows (snd (createBooking utcHost followUp dbBlocked)))"
    by (simp add: datesInRange_def followUp_accepted checkOutDate_def msPerDay_def
          maxTime_def)
  have de: "datesInRange (rows (snd (extendBooking utcHost 2 (Num 3) dbBlocked)))"
    by (simp add: datesInRange_def extend_dbBlocked(4) checkOutDate_def msPerDay_def
          maxTime_def)
  from no_overlap_preserved [OF fixedOffset_utcHost u p d n wc wx, of 2]
    fixedOffset_utcHost u p d n dc de followUp_accepted extend_dbBlocked(4)
  show ?thesis by blast
qed

section \<open>The number of nights\<close>

text \<open>
  C7, as the specification states it: \<open>numberOfNights \<ge> 1\<close> for every booking the engines
  create or update. \<^verbatim>\<open>createBooking\<close> and \<^verbatim>\<open>isBookingPossible\<close> never test
  \<open>numberOfNights\<close>: in the empty store the request of \<open>GuestB\<close> for unit 1 on day 5 with
  \<open>numberOfNights = 0\<close> passes the four checks and is stored as it is.
\<close>

theorem zero_nights_stored:
  "fst (createBooking utcHost zeroNightStay emptyDb) =
     Inr (Response 200 (Row \<lparr>guestName = ''GuestB'', unitID = ''1'',
                              checkInDate = 432000000, numberOfNights = 0,
                              bookingId = 1\<rparr>)) \<and>
   rows (snd (createBooking utcHost zeroNightStay emptyDb)) =
     [\<lparr>guestName = ''GuestB'', unitID = ''1'', checkInDate = 432000000, numberOfNights = 0,
       bookingId = 1\<rparr>] \<and>
   \<not> nightsAtLeastOne (rows (snd (createBooking utcHost zeroNightStay emptyDb)))"
  by (simp add: createBooking_fst createBooking_rows emptyDb_accepts emptyDb_def
        zeroNightStay_def nightsAtLeastOne_def isWhole_def)

text \<open>
  C7, amended: the engines keep \<open>numberOfNights \<ge> 1\<close> but do not establish it. An
  accepted creation stores the candidate's \<open>numberOfNights\<close> as it is, unchecked, in one
  new row. An accepted extension may only increase \<open>numberOfNights\<close>: the night count it
  returns and stores for the requested id is not smaller than the one the booking had,
  and it changes no other booking. So a store whose bookings all have
  \<open>numberOfNights \<ge> 1\<close> stays such under every extension request, and under the creation
  of a candidate with \<open>numberOfNights \<ge> 1\<close>.
\<close>

theorem nights_kept_or_increased:
  "(fst (createBooking h c s) = Inr (Response 200 (Row r)) \<longrightarrow>
      numberOfNights r = numberOfNights c \<and>
      rows (snd (createBooking h c s)) = rows s @ [r]) \<and>
   (fst (extendBooking h i e s) = Inr (Response 200 (Row u)) \<longrightarrow>
      (\<exists>b. find (\<lambda>r. bookingId r = i) (rows s) = Some b \<and>
           numberOfNights b \<le> numberOfNights u) \<and>
      length (rows (snd (extendBooking h i e s))) = length (rows s) \<and>
      (\<forall>k < length (rows s).
         if bookingId (rows s ! k) = i
         then numberOfNights (rows (snd (extendBooking h i e s)) ! k) = numberOfNights u
         else rows (snd (extendBooking h i e s)) ! k = rows s ! k)) \<and>
   (nightsAtLeastOne (rows s) \<longrightarrow>
      nightsAtLeastOne (rows (snd (extendBooking h i e s)))) \<and>
   (nightsAtLeastOne (rows s) \<and> 1 \<le> numberOfNights c \<longrightarrow>
      nightsAtLeastOne (rows (snd (createBooking h c s))))"
proof -
  have c1: "fst (createBooking h c s) = Inr (Response 200 (Row r)) \<longrightarrow>
      numberOfNights r = numberOfNights c \<and>
      rows (snd (createBooking h c s)) = rows s @ [r]"
    by (auto simp add: createBooking_fst createBooking_rows split: if_splits)
  have e1: "(\<exists>b. find (\<lambda>r. bookingId r = i) (rows s) = Some b \<and>
           numberOfNights b \<le> numberOfNights u) \<and>
      length (rows (snd (extendBooking h i e s))) = length (rows s) \<and>
      (\<forall>k < length (rows s).
         if bookingId (rows s ! k) = i
         then numberOfNights (rows (snd (extendBooking h i e s)) ! k) = numberOfNights u
         else rows (snd (extendBooking h i e s)) ! k = rows s ! k)"
    if "fst (extendBooking h i e s) = Inr (Response 200 (Row u))"
  proof -
    from extendBooking_accepted [OF that] obtain b x where
      x: "0 < x" and f: "find (\<lambda>r. bookingId r = i) (rows s) = Some b" and
      u: "u = b\<lparr>numberOfNights := numberOfNights b + x\<rparr>" and
      r: "rows (snd (extendBooking h i e s)) =
            map (setNights i (numberOfNights b + x)) (rows s)"
      by blast
    have "numberOfNights b \<le> numberOfNights u"
      using x by (simp add: u)
    with f show ?thesis
      by (simp add: r u setNights_def)
  qed
  have e2: "nightsAtLeastOne (rows (snd (extendBooking h i e s)))"
    if a: "nightsAtLeastOne (rows s)"
    using extendBooking_rows_cases [of h i e s]
  proof
    assume "rows (snd (extendBooking h i e s)) = rows s"
    with a show ?thesis by simp
  next
    assume "\<exists>b x. e = Num x \<and> 0 < x \<and> find (\<lambda>r. bookingId r = i) (rows s) = Some b \<and>
      \<not> computedConflict h b x (rows s) \<and> isWhole (numberOfNights b + x) \<and>
      fst (extendBooking h i e s) =
        Inr (Response 200 (Row (b\<lparr>numberOfNights := numberOfNights b + x\<rparr>))) \<and>
      rows (snd (extendBooking h i e s)) = map (setNights i (numberOfNights b + x)) (rows s)"
    then obtain b x where x: "0 < x" and
      f: "find (\<lambda>r. bookingId r = i) (rows s) = Some b" and
      r: "rows (snd (extendBooking h i e s)) =
            map (setNights i (numberOfNights b + x)) (rows s)"
      by blast
    have "1 \<le> numberOfNights b"
      using a find_id [OF f] by (simp add: nightsAtLeastOne_def)
    with x have "1 \<le> numberOfNights b + x" by simp
    with a show ?thesis
      by (auto simp add: r nightsAtLeastOne_def setNights_def)
  qed
  have c2: "nightsAtLeastOne (rows s) \<and> 1 \<le> numberOfNights c \<longrightarrow>
      nightsAtLeastOne (rows (snd (createBooking h c s)))"
    by (simp add: createBooking_rows nightsAtLeastOne_def)
  from c1 e1 e2 c2 show ?thesis by blast
qed

theorem nights_kept_or_increased_witness:
  "fst (createBooking utcHost followUp dbBlocked) =
     Inr (Response 200 (Row \<lparr>guestName = ''GuestD'', unitID = ''1'', checkInDate = 604800000,
                              numberOfNights = 3, bookingId = 3\<rparr>)) \<and>
   rows (snd (createBooking utcHost followUp dbBlocked)) =
     rows dbBlocked @
     [\<lparr>guestName = ''GuestD'', unitID = ''1'', checkInDate = 604800000, numberOfNights = 3,
       bookingId = 3\<rparr>] \<and>
   fst (extendBooking utcHost 2 (Num 3) dbBlocked) =
     Inr (Response 200 (Row \<lparr>guestName = ''GuestC'', unitID = ''1'', checkInDate = 432000000,
                              numberOfNights = 5, bookingId = 2\<rparr>)) \<and>
   rows (snd (extendBooking utcHost 2 (Num 3) dbBlocked)) ! 0 = rows dbBlocked ! 0 \<and>
   numberOfNights (rows (snd (extendBooking utcHost 2 (Num 3) dbBlocked)) ! 1) = 5 \<and>
   nightsAtLeastOne (rows dbBlocked) \<and>
   nightsAtLeastOne (rows (snd (extendBooking utcHost 2 (Num 3) dbBlocked))) \<and>
   1 \<le> numberOfNights followUp \<and>
   nightsAtLeastOne (rows (snd (createBooking utcHost followUp dbBlocked)))"
proof -
  let ?d = "\<lparr>guestName = ''GuestD'', unitID = ''1'', checkInDate = 604800000,
      numberOfNights = 3, bookingId = 3\<rparr>"
  let ?c = "\<lparr>guestName = ''GuestC'', unitID = ''1'', checkInDate = 432000000,
      numberOfNights = 5, bookingId = 2\<rparr>"
  note t = nights_kept_or_increased [of utcHost followUp dbBlocked ?d 2 "Num 3" ?c]
  have a: "nightsAtLeastOne (rows dbBlocked)"
    by (simp add: nightsAtLeastOne_def dbBlocked_rows)
  have b: "1 \<le> numberOfNights followUp" by (simp add: followUp_def)
  from t followUp_response
  have r: "rows (snd (createBooking utcHost followUp dbBlocked)) = rows dbBlocked @ [?d]"
    by blast
  from t extend_dbBlocked(3)
  have "\<forall>k < length (rows dbBlocked).
         if bookingId (rows dbBlocked ! k) = 2
         then numberOfNights (rows (snd (extendBooking utcHost 2 (Num 3) dbBlocked)) ! k) =
              numberOfNights ?c
         else rows (snd (extendBooking utcHost 2 (Num 3) dbBlocked)) ! k = rows dbBlocked ! k"
    by blast
  then have k: "rows (snd (extendBooking utcHost 2 (Num 3) dbBlocked)) ! 0 = rows dbBlocked ! 0"
    "numberOfNights (rows (snd (extendBooking utcHost 2 (Num 3) dbBlocked)) ! 1) = 5"
    by (simp_all add: dbBlocked_rows)
  from t a b
  have "nightsAtLeastOne (rows (snd (extendBooking utcHost 2 (Num 3) dbBlocked))) \<and>
        nightsAtLeastOne (rows (snd (createBooking utcHost followUp dbBlocked)))"
    by blast
  with followUp_response r extend_dbBlocked(3) k a b show ?thesis by blast
qed

section \<open>Extra nights that are not whole\<close>




end
